theory Spec2Isabelle
  imports Complex_Main "HOL-Library.AList" "HOL-Library.Char_ord" "HOL-Library.List_Lexorder"
begin

section \<open>Strings and the regular expressions of the ranker\<close>

text \<open>
  A JavaScript string is modelled as a list of code units, \<^typ>\<open>string\<close>; the model covers
  text whose code units are below 256. Lengths are lengths of that list, as
  \<^verbatim>\<open>String.prototype.length\<close> counts code units.

  \<^verbatim>\<open>toLowerCase\<close> maps A-Z and the upper-case letters of the Latin-1 block (all of
  0xC0-0xDE but the multiplication sign 0xD7) 32 code units up and leaves the rest alone.
\<close>

definition lower_char :: "char \<Rightarrow> char" where
  "lower_char c =
     (let n = (of_char c :: nat)
      in if (65 \<le> n \<and> n \<le> 90) \<or> (192 \<le> n \<and> n \<le> 222 \<and> n \<noteq> 215)
         then char_of (n + 32) else c)"

definition toLowerCase :: "string \<Rightarrow> string" where
  "toLowerCase s = map lower_char s"

text \<open>
  The class \<^verbatim>\<open>\s\<close>: tab, line feed, vertical tab, form feed, carriage return, space and
  the no-break space. A line terminator is a line feed or a carriage return.
\<close>

definition is_space :: "char \<Rightarrow> bool" where
  "is_space c = ((of_char c :: nat) \<in> set [9, 10, 11, 12, 13, 32, 160])"

definition is_line_terminator :: "char \<Rightarrow> bool" where
  "is_line_terminator c = ((of_char c :: nat) \<in> set [10, 13])"

text \<open>
  A pattern letter under the \<^verbatim>\<open>i\<close> flag matches a code unit whose canonical form is the
  same. Without the \<^verbatim>\<open>u\<close> flag no code unit above 127 is canonicalised to an ASCII
  letter, so an ASCII pattern letter matches exactly its two ASCII cases.
\<close>

definition ascii_lower :: "char \<Rightarrow> char" where
  "ascii_lower c =
     (let n = (of_char c :: nat) in if 65 \<le> n \<and> n \<le> 90 then char_of (n + 32) else c)"

definition ci :: "char \<Rightarrow> char \<Rightarrow> bool" where
  "ci p c = (ascii_lower c = ascii_lower p)"

text \<open>
  The patterns of the source use literals, \<^verbatim>\<open>\s\<close>, \<^verbatim>\<open>\s*\<close>, \<^verbatim>\<open>\s+\<close>, groups, \<^verbatim>\<open>?\<close>
  and \<^verbatim>\<open>|\<close>. \<open>rmatch r s\<close> lists what is left of \<open>s\<close> after each way of matching
  \<open>r\<close> at its start; \<open>regex_test\<close> is \<^verbatim>\<open>RegExp.prototype.test\<close>: some position of the
  string has a match.
\<close>

datatype regex =
    Eps
  | Cls "char \<Rightarrow> bool"
  | StarCls "char \<Rightarrow> bool"
  | Seq regex regex
  | Alt regex regex
  | Opt regex

fun rmatch :: "regex \<Rightarrow> string \<Rightarrow> string list" where
  "rmatch Eps s = [s]"
| "rmatch (Cls p) s = (case s of [] \<Rightarrow> [] | c # cs \<Rightarrow> if p c then [cs] else [])"
| "rmatch (StarCls p) s = map (\<lambda>k. drop k s) [0 ..< Suc (length (takeWhile p s))]"
| "rmatch (Seq a b) s = concat (map (rmatch b) (rmatch a s))"
| "rmatch (Alt a b) s = rmatch a s @ rmatch b s"
| "rmatch (Opt a) s = s # rmatch a s"

definition regex_test :: "regex \<Rightarrow> string \<Rightarrow> bool" where
  "regex_test r s = list_ex (\<lambda>k. rmatch r (drop k s) \<noteq> []) [0 ..< Suc (length s)]"

definition lit :: "string \<Rightarrow> regex" where
  "lit w = foldr (\<lambda>c r. Seq (Cls (ci c)) r) w Eps"

definition ws0 :: regex where
  "ws0 = StarCls is_space"

definition ws1 :: regex where
  "ws1 = Seq (Cls is_space) (StarCls is_space)"

fun seqs :: "regex list \<Rightarrow> regex" where
  "seqs [] = Eps"
| "seqs (r # rs) = Seq r (seqs rs)"

text \<open>\<^verbatim>\<open>/use\s+(this\s+)?skill\s+when/i\<close>\<close>

definition re_use_this_skill_when :: regex where
  "re_use_this_skill_when =
     seqs [lit ''use'', ws1, Opt (Seq (lit ''this'') ws1), lit ''skill'', ws1, lit ''when'']"

text \<open>\<^verbatim>\<open>/##\s*use\s+when/i\<close>\<close>

definition re_h2_use_when :: regex where
  "re_h2_use_when = seqs [lit ''##'', ws0, lit ''use'', ws1, lit ''when'']"

text \<open>\<^verbatim>\<open>/do\s+not\s+use/i\<close>\<close>

definition re_do_not_use :: regex where
  "re_do_not_use = seqs [lit ''do'', ws1, lit ''not'', ws1, lit ''use'']"

text \<open>\<^verbatim>\<open>/##\s*(instructions|steps|how to)/i\<close>\<close>

definition re_h2_instructions :: regex where
  "re_h2_instructions =
     seqs [lit ''##'', ws0, Alt (lit ''instructions'') (Alt (lit ''steps'') (lit ''how to''))]"

text \<open>\<^verbatim>\<open>/```/\<close>\<close>

definition re_code_fence :: regex where
  "re_code_fence = lit ''```''"

text \<open>\<^verbatim>\<open>/references?\//i\<close>, \<^verbatim>\<open>/examples?\//i\<close>, \<^verbatim>\<open>/resources?\//i\<close>\<close>

definition re_references :: regex where
  "re_references = seqs [lit ''reference'', Opt (lit ''s''), lit ''/'']"

definition re_examples :: regex where
  "re_examples = seqs [lit ''example'', Opt (lit ''s''), lit ''/'']"

definition re_resources :: regex where
  "re_resources = seqs [lit ''resource'', Opt (lit ''s''), lit ''/'']"

text \<open>\<^verbatim>\<open>/##\s*safety/i\<close>\<close>

definition re_h2_safety :: regex where
  "re_h2_safety = seqs [lit ''##'', ws0, lit ''safety'']"

text \<open>
  \<^verbatim>\<open>(body.match(/^##\s/gm) || []).length\<close>: under the \<^verbatim>\<open>m\<close> flag \<^verbatim>\<open>^\<close> holds at the
  start of the text and after every line terminator. A match is three code units long and
  its first two are \<^verbatim>\<open>#\<close>, so no line starts inside a match and the global scan finds one
  match for each line start where the pattern matches.
\<close>

definition line_starts :: "string \<Rightarrow> string list" where
  "line_starts s =
     s # map (\<lambda>k. drop (Suc k) s) (filter (\<lambda>k. is_line_terminator (s ! k)) [0 ..< length s])"

definition re_h2 :: regex where
  "re_h2 = Seq (lit ''##'') (Cls is_space)"

definition count_h2 :: "string \<Rightarrow> nat" where
  "count_h2 body = length (filter (\<lambda>t. rmatch re_h2 t \<noteq> []) (line_starts body))"


section \<open>Records of the ranker\<close>

text \<open>
  \<^verbatim>\<open>source.pushedAt\<close> is a date string, or null. The model keeps what
  \<^verbatim>\<open>new Date(source.pushedAt)\<close> makes of the string: a time in milliseconds, or the
  invalid date, whose time value is NaN.
\<close>

datatype jsdate = DateMs int | InvalidDate

record source =
  repo :: string
  url :: string
  stars :: int
  forks :: int
  pushedAt :: "jsdate option"
  path :: string
  src_description :: "string option"

text \<open>
  A discovered skill, as \<^verbatim>\<open>discoverSkills\<close> builds it: every field is present, the name
  and the description are strings, the tags and the parse errors are arrays.
\<close>

record skill =
  skill_id :: string
  name :: string
  description :: string
  tags :: "string list"
  content :: string
  source :: source
  parseErrors :: "string list"

text \<open>
  An entry of the existing catalog, read from \<^verbatim>\<open>catalog.json\<close>: its name and its
  description may be missing.
\<close>

record existing_skill =
  ex_id :: string
  ex_name :: "string option"
  ex_description :: "string option"


section \<open>Jaccard similarity\<close>

text \<open>
  \<^verbatim>\<open>jaccardSimilarity\<close> divides two integers below \<open>2^53\<close>; the model keeps the exact
  quotient. The callers compare it with the literals 0.7, 0.5 and 0.3, which are the
  doubles nearest to 7/10, 1/2 and 3/10. Division in binary64 rounds to nearest and is
  monotone, and two quotients with denominators below \<open>2^40\<close> that differ are further
  apart than the doubles around them, so the comparisons of the doubles and of the exact
  quotients agree.
\<close>

definition jaccardSimilarity :: "string list \<Rightarrow> string list \<Rightarrow> rat" where
  "jaccardSimilarity tokensA tokensB =
     (if tokensA = [] \<or> tokensB = [] then 0
      else let setA = remdups tokensA;
               setB = remdups tokensB;
               intersection = int (length (filter (\<lambda>token. token \<in> set setB) setA));
               union_size = int (length setA) + int (length setB) - intersection
           in if union_size = 0 then 0 else of_int intersection / of_int union_size)"


section \<open>The four sub-scores\<close>

text \<open>
  Each \<^verbatim>\<open>if (c) score += k\<close> of the source is the step \<open>score + (if c then k else 0)\<close>.
\<close>

definition scoreCompleteness :: "skill \<Rightarrow> int" where
  "scoreCompleteness skill =
     (let score = 0;
          score = score + (if name skill \<noteq> [] \<and> name skill \<noteq> skill_id skill
                              \<and> length (name skill) > 2 then 5 else 0);
          score = score + (if description skill \<noteq> [] \<and> length (description skill) > 20 then 5
                           else if description skill \<noteq> [] \<and> length (description skill) > 0 then 2
                           else 0);
          body = toLowerCase (content skill);
          score = score + (if length body > 100 then 3 else 0);
          score = score + (if regex_test re_use_this_skill_when body
                              \<or> regex_test re_h2_use_when body then 4 else 0);
          score = score + (if regex_test re_do_not_use body then 3 else 0);
          score = score + (if regex_test re_h2_instructions body then 3 else 0);
          score = score + (if tags skill \<noteq> [] then 2 else 0)
      in min score 25)"

definition scoreQuality :: "skill \<Rightarrow> int" where
  "scoreQuality skill =
     (let score = 0;
          body = content skill;
          descLen = length (description skill);
          score = score + (if descLen > 100 then 5
                           else if descLen > 50 then 3
                           else if descLen > 20 then 1
                           else 0);
          score = score + (if length body > 2000 then 5
                           else if length body > 1000 then 4
                           else if length body > 500 then 3
                           else if length body > 200 then 2
                           else 0);
          score = score + (if regex_test re_code_fence body then 4 else 0);
          sectionCount = count_h2 body;
          score = score + (if sectionCount \<ge> 4 then 4
                           else if sectionCount \<ge> 2 then 2
                           else if sectionCount \<ge> 1 then 1
                           else 0);
          score = score + (if regex_test re_references body \<or> regex_test re_examples body
                              \<or> regex_test re_resources body then 3 else 0);
          score = score + (if regex_test re_h2_safety body then 2 else 0);
          score = score + (if parseErrors skill = [] then 2 else 0)
      in min score 25)"

text \<open>
  \<^verbatim>\<open>scoreRepoSignals\<close> reads the clock; \<open>now\<close> is its reading in milliseconds. The
  quotient \<open>monthsAgo\<close> is kept exact; an invalid date makes it NaN and every comparison
  false.
\<close>

definition recency :: "int \<Rightarrow> jsdate \<Rightarrow> int" where
  "recency now pushedDate =
     (case pushedDate of
        InvalidDate \<Rightarrow> 0
      | DateMs t \<Rightarrow>
          (let monthsAgo = (of_int (now - t) :: rat) / of_int (1000 * 60 * 60 * 24 * 30)
           in if monthsAgo < 1 then 7
              else if monthsAgo < 3 then 6
              else if monthsAgo < 6 then 5
              else if monthsAgo < 12 then 3
              else if monthsAgo < 24 then 1
              else 0))"

definition scoreRepoSignals :: "int \<Rightarrow> skill \<Rightarrow> int" where
  "scoreRepoSignals now skill =
     (let score = 0;
          src = source skill;
          score = score + (if stars src \<ge> 500 then 8
                           else if stars src \<ge> 100 then 6
                           else if stars src \<ge> 50 then 5
                           else if stars src \<ge> 10 then 3
                           else if stars src \<ge> 1 then 1
                           else 0);
          score = score + (if forks src \<ge> 100 then 5
                           else if forks src \<ge> 20 then 4
                           else if forks src \<ge> 5 then 3
                           else if forks src \<ge> 1 then 1
                           else 0);
          score = score + (case pushedAt src of
                             None \<Rightarrow> 0
                           | Some pushedDate \<Rightarrow> recency now pushedDate);
          score = score + (case src_description src of
                             None \<Rightarrow> 0
                           | Some d \<Rightarrow> if d \<noteq> [] then 2 else 0)
      in min score 25)"


section \<open>Uniqueness against the existing catalog\<close>

text \<open>
  \<^verbatim>\<open>tokenize\<close> comes from \<^verbatim>\<open>skill-utils\<close>, a module outside the sources at hand; the
  functions that call it take it as the parameter \<open>tokenize\<close>.

  \<^verbatim>\<open>scoreUniqueness\<close> returns either the bare number 25 (for a missing or empty catalog) or
  an object with the three properties \<^verbatim>\<open>score\<close>, \<^verbatim>\<open>duplicateOf\<close> and \<^verbatim>\<open>isDuplicate\<close>.
  \<open>duplicateOf\<close> is an id or null (\<open>None\<close>).
\<close>

datatype uniqueness_result =
    Bare int
  | Result (u_score: int) (u_duplicateOf: "string option") (u_isDuplicate: bool)

definition or_empty :: "string option \<Rightarrow> string" where
  "or_empty v = (case v of None \<Rightarrow> [] | Some s \<Rightarrow> s)"

definition skill_tokens :: "(string \<Rightarrow> string list) \<Rightarrow> skill \<Rightarrow> string list" where
  "skill_tokens tokenize skill = tokenize (name skill @ '' '' @ description skill)"

definition existing_tokens :: "(string \<Rightarrow> string list) \<Rightarrow> existing_skill \<Rightarrow> string list" where
  "existing_tokens tokenize existing =
     tokenize (or_empty (ex_name existing) @ '' '' @ or_empty (ex_description existing))"

text \<open>
  The loop over the existing skills: \<open>Inl\<close> is the return from inside the loop at an
  exact id match, \<open>Inr\<close> the pair \<open>(maxSimilarity, bestMatchId)\<close> the loop ends with.
\<close>

fun uniqueness_loop ::
  "(string \<Rightarrow> string list) \<Rightarrow> skill \<Rightarrow> string list \<Rightarrow> existing_skill list
     \<Rightarrow> rat \<Rightarrow> string option \<Rightarrow> uniqueness_result + rat \<times> string option" where
  "uniqueness_loop tokenize skill skillTokens [] maxSimilarity bestMatchId =
     Inr (maxSimilarity, bestMatchId)"
| "uniqueness_loop tokenize skill skillTokens (existing # rest) maxSimilarity bestMatchId =
     (if ex_id existing = skill_id skill then Inl (Result 0 (Some (ex_id existing)) True)
      else let similarity = jaccardSimilarity skillTokens (existing_tokens tokenize existing)
           in if similarity > maxSimilarity
              then uniqueness_loop tokenize skill skillTokens rest similarity (Some (ex_id existing))
              else uniqueness_loop tokenize skill skillTokens rest maxSimilarity bestMatchId)"

definition scoreUniqueness ::
  "(string \<Rightarrow> string list) \<Rightarrow> skill \<Rightarrow> existing_skill list \<Rightarrow> uniqueness_result" where
  "scoreUniqueness tokenize skill existingSkills =
     (if existingSkills = [] then Bare 25
      else let skillTokens = skill_tokens tokenize skill
           in case uniqueness_loop tokenize skill skillTokens existingSkills 0 None of
                Inl r \<Rightarrow> r
              | Inr (maxSimilarity, bestMatchId) \<Rightarrow>
                  if maxSimilarity > 7 / 10 then Result 3 bestMatchId True
                  else if maxSimilarity > 1 / 2 then Result 10 bestMatchId False
                  else if maxSimilarity > 3 / 10 then Result 18 None False
                  else Result 25 None False)"


section \<open>Total score, tier and category\<close>

text \<open>
  The numbers of the ranker are integers or NaN. Reading a property off a number gives
  \<^verbatim>\<open>undefined\<close> (\<open>None\<close>); \<^verbatim>\<open>undefined\<close> in a sum is NaN, and NaN makes a sum NaN and
  a comparison false.
\<close>

datatype jsnum = Num int | NaN

fun get_score :: "uniqueness_result \<Rightarrow> jsnum option" where
  "get_score (Bare n) = None"
| "get_score (Result s d b) = Some (Num s)"

fun get_duplicateOf :: "uniqueness_result \<Rightarrow> string option option" where
  "get_duplicateOf (Bare n) = None"
| "get_duplicateOf (Result s d b) = Some d"

fun get_isDuplicate :: "uniqueness_result \<Rightarrow> bool option" where
  "get_isDuplicate (Bare n) = None"
| "get_isDuplicate (Result s d b) = Some b"

fun to_number :: "jsnum option \<Rightarrow> jsnum" where
  "to_number None = NaN"
| "to_number (Some n) = n"

fun js_add :: "jsnum \<Rightarrow> jsnum \<Rightarrow> jsnum" where
  "js_add (Num a) (Num b) = Num (a + b)"
| "js_add _ _ = NaN"

fun js_sub :: "jsnum \<Rightarrow> jsnum \<Rightarrow> jsnum" where
  "js_sub (Num a) (Num b) = Num (a - b)"
| "js_sub _ _ = NaN"

fun js_ge :: "jsnum \<Rightarrow> int \<Rightarrow> bool" where
  "js_ge (Num a) b = (a \<ge> b)"
| "js_ge NaN b = False"

fun js_eq_num :: "jsnum \<Rightarrow> jsnum \<Rightarrow> bool" where
  "js_eq_num (Num a) (Num b) = (a = b)"
| "js_eq_num _ _ = False"

fun truthy :: "jsnum \<Rightarrow> bool" where
  "truthy (Num a) = (a \<noteq> 0)"
| "truthy NaN = False"

text \<open>The four tier labels, three stars down to the hexagon.\<close>

datatype tier = Stars3 | Stars2 | Stars1 | Hexagon

definition assignTier :: "jsnum \<Rightarrow> tier" where
  "assignTier score =
     (if js_ge score 75 then Stars3
      else if js_ge score 50 then Stars2
      else if js_ge score 25 then Stars1
      else Hexagon)"

definition CATEGORY_RULES :: "(string \<times> string list) list" where
  "CATEGORY_RULES =
     [(''security'',
        [''security'', ''sast'', ''compliance'', ''privacy'', ''threat'', ''vulnerability'',
         ''owasp'', ''pci'', ''gdpr'', ''secrets'', ''risk'', ''malware'', ''forensics'',
         ''attack'', ''incident'', ''auth'', ''mtls'', ''zero'', ''trust'']),
      (''infrastructure'',
        [''kubernetes'', ''k8s'', ''helm'', ''terraform'', ''cloud'', ''network'', ''devops'',
         ''gitops'', ''prometheus'', ''grafana'', ''observability'', ''monitoring'',
         ''logging'', ''tracing'', ''deployment'', ''istio'', ''linkerd'', ''service'',
         ''mesh'', ''slo'', ''sre'', ''oncall'', ''incident'', ''pipeline'', ''cicd'', ''ci'',
         ''cd'', ''kafka'']),
      (''data-ai'',
        [''data'', ''database'', ''db'', ''sql'', ''postgres'', ''mysql'', ''analytics'',
         ''etl'', ''warehouse'', ''dbt'', ''ml'', ''ai'', ''llm'', ''rag'', ''vector'',
         ''embedding'', ''spark'', ''airflow'', ''cdc'', ''pipeline'']),
      (''development'',
        [''python'', ''javascript'', ''typescript'', ''java'', ''golang'', ''go'', ''rust'',
         ''csharp'', ''dotnet'', ''php'', ''ruby'', ''node'', ''react'', ''frontend'',
         ''backend'', ''mobile'', ''ios'', ''android'', ''flutter'', ''fastapi'', ''django'',
         ''nextjs'', ''vue'', ''api'']),
      (''architecture'',
        [''architecture'', ''c4'', ''microservices'', ''event'', ''cqrs'', ''saga'', ''domain'',
         ''ddd'', ''patterns'', ''decision'', ''adr'']),
      (''testing'', [''testing'', ''tdd'', ''unit'', ''e2e'', ''qa'', ''test'']),
      (''business'',
        [''business'', ''market'', ''sales'', ''finance'', ''startup'', ''legal'', ''hr'',
         ''product'', ''customer'', ''seo'', ''marketing'', ''kpi'', ''contract'',
         ''employment'']),
      (''workflow'',
        [''workflow'', ''orchestration'', ''conductor'', ''automation'', ''process'',
         ''collaboration''])]"

fun join_space :: "string list \<Rightarrow> string" where
  "join_space [] = []"
| "join_space [t] = t"
| "join_space (t # ts) = t @ '' '' @ join_space ts"

definition categorizeSkill :: "(string \<Rightarrow> string list) \<Rightarrow> skill \<Rightarrow> string" where
  "categorizeSkill tokenize skill =
     (let haystack = tokenize (skill_id skill @ '' '' @ name skill @ '' '' @ description skill
                                 @ '' '' @ join_space (tags skill))
      in case find (\<lambda>rule. list_ex (\<lambda>keyword. keyword \<in> set haystack) (snd rule)) CATEGORY_RULES of
           Some rule \<Rightarrow> fst rule
         | None \<Rightarrow> ''general'')"

record breakdown =
  completeness :: int
  uniqueness :: "jsnum option"
  quality :: int
  repoSignals :: int

text \<open>
  The ranked record. \<open>isDuplicate\<close> and the outer option of \<open>duplicateOf\<close> are \<open>None\<close>
  where the property read was \<^verbatim>\<open>undefined\<close>.
\<close>

record ranked_skill =
  r_id :: string
  r_name :: string
  r_description :: string
  category :: string
  r_tags :: "string list"
  r_source :: source
  score :: jsnum
  tier :: tier
  isDuplicate :: "bool option"
  duplicateOf :: "string option option"
  breakdown :: breakdown

definition rankSkill ::
  "(string \<Rightarrow> string list) \<Rightarrow> int \<Rightarrow> skill \<Rightarrow> existing_skill list \<Rightarrow> ranked_skill" where
  "rankSkill tokenize now skill existingSkills =
     (let completeness = scoreCompleteness skill;
          uniquenessResult = scoreUniqueness tokenize skill existingSkills;
          quality = scoreQuality skill;
          repoSignals = scoreRepoSignals now skill;
          totalScore = js_add (js_add (js_add (Num completeness)
                                  (to_number (get_score uniquenessResult)))
                                (Num quality)) (Num repoSignals)
      in \<lparr> r_id = skill_id skill,
           r_name = name skill,
           r_description = description skill,
           category = categorizeSkill tokenize skill,
           r_tags = tags skill,
           r_source = source skill,
           score = totalScore,
           tier = assignTier totalScore,
           isDuplicate = get_isDuplicate uniquenessResult,
           duplicateOf = get_duplicateOf uniquenessResult,
           breakdown = \<lparr> completeness = completeness,
                         uniqueness = get_score uniquenessResult,
                         quality = quality,
                         repoSignals = repoSignals \<rparr> \<rparr>)"

text \<open>
  \<^verbatim>\<open>ranked.sort((a, b) => b.score - a.score || a.id.localeCompare(b.id))\<close>.
  \<^verbatim>\<open>localeCompare\<close> is the collation of the runtime, the parameter \<open>localeCompare\<close>: a
  negative, zero or positive integer. \<^verbatim>\<open>x || y\<close> is \<open>y\<close> where \<open>x\<close> is 0 or NaN.

  \<^verbatim>\<open>Array.prototype.sort\<close> is stable, puts \<open>a\<close> after \<open>b\<close> where the comparator is
  positive and reads a NaN from the comparator as 0. The model sorts by insertion from the
  right, which keeps the order of elements that compare equal.
\<close>

definition compare_ranked ::
  "(string \<Rightarrow> string \<Rightarrow> int) \<Rightarrow> ranked_skill \<Rightarrow> ranked_skill \<Rightarrow> jsnum" where
  "compare_ranked localeCompare a b =
     (let d = js_sub (score b) (score a)
      in if truthy d then d else Num (localeCompare (r_id a) (r_id b)))"

fun positive :: "jsnum \<Rightarrow> bool" where
  "positive (Num v) = (v > 0)"
| "positive NaN = False"

fun insert_sorted :: "('a \<Rightarrow> 'a \<Rightarrow> jsnum) \<Rightarrow> 'a \<Rightarrow> 'a list \<Rightarrow> 'a list" where
  "insert_sorted cmp x [] = [x]"
| "insert_sorted cmp x (y # ys) =
     (if positive (cmp x y) then y # insert_sorted cmp x ys else x # y # ys)"

definition array_sort :: "('a \<Rightarrow> 'a \<Rightarrow> jsnum) \<Rightarrow> 'a list \<Rightarrow> 'a list" where
  "array_sort cmp xs = foldr (insert_sorted cmp) xs []"

definition rankAll ::
  "(string \<Rightarrow> string list) \<Rightarrow> (string \<Rightarrow> string \<Rightarrow> int) \<Rightarrow> int
     \<Rightarrow> skill list \<Rightarrow> existing_skill list \<Rightarrow> ranked_skill list" where
  "rankAll tokenize localeCompare now discoveredSkills existingSkills =
     array_sort (compare_ranked localeCompare)
       (map (\<lambda>skill. rankSkill tokenize now skill existingSkills) discoveredSkills)"


section \<open>The repository catalog\<close>

text \<open>
  \<^verbatim>\<open>catalog.repos\<close> is an object keyed by repository name; the model keeps it as an
  association list in insertion order, the order \<^verbatim>\<open>Object.entries\<close> gives. Repository
  names have the form \<^verbatim>\<open>owner/name\<close>, so none is a property that objects inherit.
  Timestamps are ISO strings; \<open>now\<close> is \<^verbatim>\<open>new Date().toISOString()\<close> at the call.
\<close>

record check_event =
  timestamp :: string
  ev_skillCount :: int
  ev_status :: string

record repo_entry =
  firstSeen :: string
  lastChecked :: string
  checks :: "check_event list"
  e_stars :: int
  e_forks :: int
  e_description :: string
  e_url :: string
  skillCount :: int
  skillIds :: "string list"
  status :: string

record catalog =
  repos :: "(string \<times> repo_entry) list"
  lastUpdated :: "string option"

text \<open>
  The \<open>info\<close> argument of \<^verbatim>\<open>logRepoCheck\<close>. The callers always pass the numbers and the
  description; \<^verbatim>\<open>skillIds\<close> and \<^verbatim>\<open>status\<close> may be left out (\<open>None\<close>).
\<close>

record check_info =
  i_stars :: int
  i_forks :: int
  i_description :: string
  i_skillCount :: int
  i_skillIds :: "string list option"
  i_status :: "string option"

text \<open>\<^verbatim>\<open>x || y\<close> on numbers and on strings: \<open>y\<close> where \<open>x\<close> is 0 or empty.\<close>

definition num_or :: "int \<Rightarrow> int \<Rightarrow> int" where
  "num_or x y = (if x \<noteq> 0 then x else y)"

definition str_or :: "string \<Rightarrow> string \<Rightarrow> string" where
  "str_or x y = (if x \<noteq> [] then x else y)"

definition status_or_checked :: "string option \<Rightarrow> string" where
  "status_or_checked v = (case v of None \<Rightarrow> ''checked'' | Some s \<Rightarrow> str_or s ''checked'')"

definition logRepoCheck :: "string \<Rightarrow> catalog \<Rightarrow> string \<Rightarrow> check_info \<Rightarrow> catalog" where
  "logRepoCheck now catalog repoName info =
     (let entry =
            (case map_of (repos catalog) repoName of
               None \<Rightarrow>
                 \<lparr> firstSeen = now,
                   lastChecked = now,
                   checks = [],
                   e_stars = num_or (i_stars info) 0,
                   e_forks = num_or (i_forks info) 0,
                   e_description = str_or (i_description info) [],
                   e_url = ''https://github.com/'' @ repoName,
                   skillCount = num_or (i_skillCount info) 0,
                   skillIds = (case i_skillIds info of None \<Rightarrow> [] | Some ids \<Rightarrow> ids),
                   status = status_or_checked (i_status info) \<rparr>
             | Some entry \<Rightarrow>
                 entry
                 \<lparr> lastChecked := now,
                   e_stars := num_or (i_stars info) (e_stars entry),
                   e_forks := num_or (i_forks info) (e_forks entry),
                   e_description := str_or (i_description info) (e_description entry),
                   skillCount := num_or (i_skillCount info) (skillCount entry),
                   skillIds := (case i_skillIds info of
                                  None \<Rightarrow> skillIds entry
                                | Some ids \<Rightarrow> if ids \<noteq> [] then ids else skillIds entry),
                   status := status_or_checked (i_status info) \<rparr>);
          pushed = checks entry @
                     [\<lparr> timestamp = now,
                        ev_skillCount = num_or (i_skillCount info) 0,
                        ev_status = status_or_checked (i_status info) \<rparr>];
          kept = (if length pushed > 20 then drop (length pushed - 20) pushed else pushed)
      in catalog \<lparr> repos := AList.update repoName (entry \<lparr> checks := kept \<rparr>) (repos catalog) \<rparr>)"

text \<open>A run of visits: each is the clock reading, the repository and the info of one call.\<close>

fun logRepoChecks :: "(string \<times> string \<times> check_info) list \<Rightarrow> catalog \<Rightarrow> catalog" where
  "logRepoChecks [] catalog = catalog"
| "logRepoChecks ((now, repoName, info) # rest) catalog =
     logRepoChecks rest (logRepoCheck now catalog repoName info)"

definition visited :: "(string \<times> string \<times> check_info) list \<Rightarrow> string set" where
  "visited vs = set (map (\<lambda>v. fst (snd v)) vs)"

record catalog_stats =
  totalRepos :: nat
  reposWithSkills :: nat
  emptyRepos :: nat
  totalSkills :: int
  oldestCheck :: "string option"
  newestCheck :: "string option"
  st_lastUpdated :: "string option"

text \<open>
  The loop of \<^verbatim>\<open>getCatalogStats\<close> over the last-checked times; strings compare by code
  units, and a null or empty time counts as not yet set.
\<close>

definition is_older :: "string \<Rightarrow> string option \<Rightarrow> bool" where
  "is_older t oldest = (case oldest of None \<Rightarrow> True | Some u \<Rightarrow> u = [] \<or> t < u)"

definition is_newer :: "string \<Rightarrow> string option \<Rightarrow> bool" where
  "is_newer t newest = (case newest of None \<Rightarrow> True | Some u \<Rightarrow> u = [] \<or> t > u)"

fun check_span :: "repo_entry list \<Rightarrow> string option \<Rightarrow> string option
     \<Rightarrow> string option \<times> string option" where
  "check_span [] oldest newest = (oldest, newest)"
| "check_span (entry # rest) oldest newest =
     check_span rest
       (if is_older (lastChecked entry) oldest then Some (lastChecked entry) else oldest)
       (if is_newer (lastChecked entry) newest then Some (lastChecked entry) else newest)"

definition getCatalogStats :: "catalog \<Rightarrow> catalog_stats" where
  "getCatalogStats catalog =
     (let entries = map snd (repos catalog);
          span = check_span entries None None
      in \<lparr> totalRepos = length entries,
           reposWithSkills = length (filter (\<lambda>entry. skillCount entry > 0) entries),
           emptyRepos = length (filter (\<lambda>entry. skillCount entry = 0) entries),
           totalSkills = foldl (\<lambda>acc entry. acc + skillCount entry) 0 entries,
           oldestCheck = fst span,
           newestCheck = snd span,
           st_lastUpdated = lastUpdated catalog \<rparr>)"


section \<open>The rate-limited client and the repository search\<close>

text \<open>
  \<^verbatim>\<open>httpsGet\<close> resolves with the status, the body and the two rate-limit headers, or
  rejects on a connection error. The network is the parameter \<open>http\<close>: the outcome of the
  request of each attempt. The synthesized answer to a 422 has no \<^verbatim>\<open>rateLimitReset\<close>
  (\<open>None\<close>). Sleeping and logging are left out; \<open>now\<close> is \<^verbatim>\<open>Date.now()\<close>.
\<close>

record http_result =
  statusCode :: int
  body :: string
  rateLimitRemaining :: int
  rateLimitReset :: "int option"

datatype outcome = ConnectionError | Response http_result

datatype error =
    NetworkError
  | RateLimitExceeded int
  | SearchApiError int
  | JsonSyntaxError
  | TypeError

definition wait_seconds :: "int \<Rightarrow> http_result \<Rightarrow> int" where
  "wait_seconds now result =
     (let resetTime = (case rateLimitReset result of None \<Rightarrow> 0 | Some t \<Rightarrow> t) * 1000;
          waitMs = max (resetTime - now) 1000
      in - ((- waitMs) div 1000))"

text \<open>
  The loop \<^verbatim>\<open>for (attempt = 0; attempt <= retries; attempt++)\<close>; leaving it without a
  return gives \<^verbatim>\<open>undefined\<close> (\<open>Inr None\<close>).
\<close>

function rateLimitedGet_from ::
  "(nat \<Rightarrow> outcome) \<Rightarrow> int \<Rightarrow> nat \<Rightarrow> nat \<Rightarrow> error + http_result option" where
  \<open>rateLimitedGet_from http now retries attempt =
     (if attempt > retries then Inr None
      else case http attempt of
             ConnectionError \<Rightarrow> Inl NetworkError
           | Response result \<Rightarrow>
               if statusCode result = 403 \<and> rateLimitRemaining result = 0
               then (if attempt < retries
                     then rateLimitedGet_from http now retries (Suc attempt)
                     else Inl (RateLimitExceeded (wait_seconds now result)))
               else if statusCode result = 422
               then Inr (Some \<lparr> statusCode = 422, body = ''{"items":[]}'',
                                 rateLimitRemaining = rateLimitRemaining result,
                                 rateLimitReset = None \<rparr>)
               else if statusCode result \<ge> 500 \<and> attempt < retries
               then rateLimitedGet_from http now retries (Suc attempt)
               else Inr (Some result))\<close>
  by pat_completeness auto
termination
  by (relation "measure (\<lambda>(http, now, retries, attempt). Suc retries - attempt)") auto

definition rateLimitedGet :: "(nat \<Rightarrow> outcome) \<Rightarrow> int \<Rightarrow> error + http_result option" where
  "rateLimitedGet http now = rateLimitedGet_from http now 2 0"

record repo_item =
  it_repo :: string
  it_repoUrl :: string
  it_stars :: int
  it_forks :: int
  it_pushedAt :: "string option"
  it_description :: string
  it_defaultBranch :: string

record search_result =
  totalCount :: int
  items :: "repo_item list"

text \<open>
  \<^verbatim>\<open>searchRepos\<close>: any status but 200 is thrown as an error that names the status.
  \<open>parse\<close> stands for \<^verbatim>\<open>JSON.parse\<close> of a 200 body followed by the mapping of its items;
  it is \<open>None\<close> where that throws.
\<close>

definition searchRepos ::
  "(string \<Rightarrow> search_result option) \<Rightarrow> (nat \<Rightarrow> outcome) \<Rightarrow> int \<Rightarrow> error + search_result" where
  "searchRepos parse http now =
     (case rateLimitedGet http now of
        Inl e \<Rightarrow> Inl e
      | Inr None \<Rightarrow> Inl TypeError
      | Inr (Some result) \<Rightarrow>
          if statusCode result \<noteq> 200 then Inl (SearchApiError (statusCode result))
          else (case parse (body result) of
                  None \<Rightarrow> Inl JsonSyntaxError
                | Some data \<Rightarrow> Inr data))"


section \<open>The inventory build\<close>

text \<open>
  \<^verbatim>\<open>consolidate\<close> reads the existing catalog, runs the crawl, reads the repository catalog
  and the clock, writes two files and logs. What it reads is the record \<open>world\<close>; what
  it writes and logs is returned as a list of events, in order, next to its result. A
  crawl that throws makes \<^verbatim>\<open>consolidate\<close> reject (\<open>Inl\<close>); \<^verbatim>\<open>null\<close> is \<open>Inr None\<close>.
\<close>

record options =
  o_query :: "string option"
  o_limit :: "int option"
  o_minScore :: "int option"
  o_output :: "string option"
  o_durationMs :: "int option"

record crawl_config =
  queries :: "string list"
  limit :: int
  durationMs :: int

record discovery =
  reposScanned :: nat
  skills :: "skill list"

text \<open>
  The duration label is \<^verbatim>\<open>single pass\<close> or the hours of \<^verbatim>\<open>durationMs\<close> to one decimal;
  the model keeps the milliseconds.
\<close>

datatype duration_label = SinglePass | Hours int

record inventory =
  scannedAt :: string
  inv_query :: string
  inv_reposScanned :: nat
  totalDiscovered :: nat
  duration :: duration_label
  inv_skills :: "ranked_skill list"

datatype artifact = InventoryJson inventory | DiscoveredMarkdown inventory

datatype event =
    LogStarting int duration_label
  | LogLoaded nat
  | LogDiscovered nat nat
  | LogNoSkills
  | LogCatalogTracked nat nat
  | LogRanking
  | LogFiltered nat int
  | WriteFile string artifact
  | LogOutput string
  | LogCatalogTotals nat nat int

record world =
  w_tokenize :: "string \<Rightarrow> string list"
  w_localeCompare :: "string \<Rightarrow> string \<Rightarrow> int"
  w_root :: string
  w_now_ms :: int
  w_now_iso :: string
  w_existingCatalog :: "existing_skill list"
  w_discoverSkills :: "crawl_config \<Rightarrow> error + discovery"
  w_repoCatalog :: catalog

definition opt_str_or :: "string option \<Rightarrow> string \<Rightarrow> string" where
  "opt_str_or v d = (case v of None \<Rightarrow> d | Some s \<Rightarrow> str_or s d)"

definition opt_num_or :: "int option \<Rightarrow> int \<Rightarrow> int" where
  "opt_num_or v d = (case v of None \<Rightarrow> d | Some n \<Rightarrow> num_or n d)"

definition crawl_config_of :: "options \<Rightarrow> crawl_config" where
  "crawl_config_of opts =
     \<lparr> queries = [opt_str_or (o_query opts) ''filename:SKILL.md path:skills''],
       limit = opt_num_or (o_limit opts) 20,
       durationMs = opt_num_or (o_durationMs opts) 0 \<rparr>"

definition consolidate :: "world \<Rightarrow> options \<Rightarrow> event list \<times> (error + inventory option)" where
  "consolidate w opts =
     (let query = opt_str_or (o_query opts) ''filename:SKILL.md path:skills'';
          limit = opt_num_or (o_limit opts) 20;
          minScore = opt_num_or (o_minScore opts) 0;
          outputDir = opt_str_or (o_output opts) (w_root w);
          durationMs = opt_num_or (o_durationMs opts) 0;
          durationLabel = (if durationMs \<noteq> 0 then Hours durationMs else SinglePass);
          log1 = [LogStarting limit durationLabel];
          existingSkills = w_existingCatalog w;
          log2 = log1 @ [LogLoaded (length existingSkills)]
      in case w_discoverSkills w \<lparr> queries = [query], limit = limit, durationMs = durationMs \<rparr> of
           Inl e \<Rightarrow> (log2, Inl e)
         | Inr found \<Rightarrow>
             (let discovered = skills found;
                  log3 = log2 @ [LogDiscovered (length discovered) (reposScanned found)]
              in if discovered = []
                 then (let stats = getCatalogStats (w_repoCatalog w)
                       in (log3 @ [LogNoSkills,
                                   LogCatalogTracked (totalRepos stats) (reposWithSkills stats)],
                           Inr None))
                 else (let ranked = rankAll (w_tokenize w) (w_localeCompare w) (w_now_ms w)
                                      discovered existingSkills;
                           filtered = (if minScore > 0
                                       then filter (\<lambda>s. js_ge (score s) minScore) ranked
                                       else ranked);
                           log4 = log3 @ [LogRanking] @
                                    (if minScore > 0 then [LogFiltered (length filtered) minScore]
                                     else []);
                           inventory = \<lparr> scannedAt = w_now_iso w,
                                         inv_query = query,
                                         inv_reposScanned = reposScanned found,
                                         totalDiscovered = length filtered,
                                         duration = durationLabel,
                                         inv_skills = filtered \<rparr>;
                           jsonPath = outputDir @ ''/discovered-skills.json'';
                           mdPath = outputDir @ ''/DISCOVERED.md'';
                           stats = getCatalogStats (w_repoCatalog w)
                       in (log4 @ [WriteFile jsonPath (InventoryJson inventory),
                                   WriteFile mdPath (DiscoveredMarkdown inventory),
                                   LogOutput jsonPath,
                                   LogOutput mdPath,
                                   LogCatalogTotals (totalRepos stats) (reposWithSkills stats)
                                     (totalSkills stats)],
                           Inr (Some inventory)))))"

fun is_write :: "event \<Rightarrow> bool" where
  "is_write (WriteFile p a) = True"
| "is_write _ = False"


section \<open>Notions the properties are stated with\<close>

text \<open>
  The similarity \<^verbatim>\<open>scoreUniqueness\<close> computes between the skill and one existing entry.
\<close>

definition similarity_to :: "(string \<Rightarrow> string list) \<Rightarrow> skill \<Rightarrow> existing_skill \<Rightarrow> rat" where
  "similarity_to tokenize skill existing =
     jaccardSimilarity (skill_tokens tokenize skill) (existing_tokens tokenize existing)"

text \<open>
  Two records are in order where the first has the greater score, or the scores are equal
  and the collation does not put the first id after the second. A NaN score is neither
  greater than nor equal to any score.
\<close>

fun js_gt_num :: "jsnum \<Rightarrow> jsnum \<Rightarrow> bool" where
  "js_gt_num (Num a) (Num b) = (a > b)"
| "js_gt_num _ _ = False"

definition in_rank_order :: "(string \<Rightarrow> string \<Rightarrow> int) \<Rightarrow> ranked_skill \<Rightarrow> ranked_skill \<Rightarrow> bool" where
  "in_rank_order localeCompare a b =
     (js_gt_num (score a) (score b)
      \<or> (js_eq_num (score a) (score b) \<and> localeCompare (r_id a) (r_id b) \<le> 0))"


text \<open>
  What a run of visits leaves in a list of checks. \<open>last20\<close> keeps the 20 newest
  elements of a list whose newest element is its last. \<open>visit_event\<close> is the event that
  a visit records: its time, its count of skills and its status, \<^verbatim>\<open>checked\<close> where none
  was given. \<open>prior_checks\<close> are the checks a repository has in a catalog, none if it has
  no entry, and \<open>events_of\<close> the events of the visits of a run to a repository, in the
  order of the run.
\<close>

definition last20 :: "'a list \<Rightarrow> 'a list" where
  "last20 xs = drop (length xs - 20) xs"

definition visit_event :: "string \<Rightarrow> check_info \<Rightarrow> check_event" where
  "visit_event now info =
     \<lparr> timestamp = now,
       ev_skillCount = i_skillCount info,
       ev_status = (case i_status info of
                      None \<Rightarrow> ''checked''
                    | Some s \<Rightarrow> if s = [] then ''checked'' else s) \<rparr>"

definition prior_checks :: "catalog \<Rightarrow> string \<Rightarrow> check_event list" where
  "prior_checks c r = (case map_of (repos c) r of None \<Rightarrow> [] | Some e \<Rightarrow> checks e)"

definition visits_to ::
  "string \<Rightarrow> (string \<times> string \<times> check_info) list \<Rightarrow> (string \<times> string \<times> check_info) list" where
  "visits_to r vs = filter (\<lambda>v. fst (snd v) = r) vs"

definition events_of :: "string \<Rightarrow> (string \<times> string \<times> check_info) list \<Rightarrow> check_event list" where
  "events_of r vs = map (\<lambda>v. visit_event (fst v) (snd (snd v))) (visits_to r vs)"


section \<open>Example inputs\<close>

text \<open>
  A tokenizer and a collation to put in the place of the parameters \<open>tokenize\<close> and
  \<open>localeCompare\<close> at concrete inputs: the lower-case words between spaces, and the
  comparison of strings by code units.
\<close>

fun words_from :: "string \<Rightarrow> string \<Rightarrow> string list" where
  "words_from [] w = (if w = [] then [] else [w])"
| "words_from (c # cs) w =
     (if c = CHR '' '' then (if w = [] then words_from cs [] else w # words_from cs [])
      else words_from cs (w @ [c]))"

definition sample_tokenize :: "string \<Rightarrow> string list" where
  "sample_tokenize s = words_from (toLowerCase s) []"

definition code_unit_compare :: "string \<Rightarrow> string \<Rightarrow> int" where
  "code_unit_compare a b = (if a < b then - 1 else if a = b then 0 else 1)"

definition no_source :: source where
  "no_source =
     \<lparr> repo = ''owner/repo'', url = ''https://github.com/owner/repo'', stars = 0, forks = 0,
       pushedAt = None, path = ''skills/foo/SKILL.md'', src_description = None \<rparr>"

text \<open>
  The body of the scenario, with what stands between its headers left open, and the
  document of the scenario, with the id left open. \<open>scenario_content\<close> is the body as
  it is written, three dots in each place; \<open>long_doc\<close> has forty letters in each.
\<close>

definition scenario_body :: "string \<Rightarrow> string \<Rightarrow> string" where
  "scenario_body a b =
     ''## Use When\<newline>'' @ a @ ''\<newline>## Instructions\<newline>'' @ b
       @ ''\<newline>```js\<newline>code\<newline>```''"

definition scenario_content :: string where
  "scenario_content = scenario_body ''...'' ''...''"

definition scenario_doc :: "string \<Rightarrow> skill" where
  "scenario_doc i =
     \<lparr> skill_id = i, name = ''Foo'', description = replicate 30 (CHR ''A''), tags = [''x''],
       content = scenario_content, source = no_source, parseErrors = [] \<rparr>"

definition long_doc :: skill where
  "long_doc =
     \<lparr> skill_id = ''foo'', name = ''Foo'', description = replicate 30 (CHR ''A''), tags = [''x''],
       content = scenario_body (replicate 40 (CHR ''x'')) (replicate 40 (CHR ''y'')),
       source = no_source, parseErrors = [] \<rparr>"

definition colliding_catalog :: "existing_skill list" where
  "colliding_catalog =
     [\<lparr> ex_id = ''bar'', ex_name = Some ''Bar'', ex_description = Some ''Something else'' \<rparr>,
      \<lparr> ex_id = ''foo'', ex_name = None, ex_description = None \<rparr>]"

definition soft_skill :: skill where
  "soft_skill =
     \<lparr> skill_id = ''alpha-beta'', name = ''alpha'', description = ''beta'', tags = [],
       content = [], source = no_source, parseErrors = [] \<rparr>"

definition soft_catalog :: "existing_skill list" where
  "soft_catalog =
     [\<lparr> ex_id = ''delta'', ex_name = Some ''delta'', ex_description = None \<rparr>,
      \<lparr> ex_id = ''alpha-beta-gamma'', ex_name = Some ''alpha beta'',
        ex_description = Some ''gamma'' \<rparr>]"

definition sample_info :: check_info where
  "sample_info =
     \<lparr> i_stars = 5, i_forks = 1, i_description = ''agents'', i_skillCount = 2,
       i_skillIds = Some [''a'', ''b''], i_status = Some ''has-skills'' \<rparr>"

definition full_entry :: repo_entry where
  "full_entry =
     \<lparr> firstSeen = ''2025-01-01T00:00:00.000Z'', lastChecked = ''2025-01-20T00:00:00.000Z'',
       checks = \<lparr> timestamp = ''2025-01-01T00:00:00.000Z'', ev_skillCount = 1,
                  ev_status = ''has-skills'' \<rparr>
                # replicate 19 \<lparr> timestamp = ''2025-01-20T00:00:00.000Z'', ev_skillCount = 2,
                                  ev_status = ''has-skills'' \<rparr>,
       e_stars = 5, e_forks = 1, e_description = ''agents'',
       e_url = ''https://github.com/wshobson/agents'', skillCount = 2,
       skillIds = [''a'', ''b''], status = ''has-skills'' \<rparr>"

definition full_catalog :: catalog where
  "full_catalog = \<lparr> repos = [(''wshobson/agents'', full_entry)], lastUpdated = None \<rparr>"

definition one_visit :: "(string \<times> string \<times> check_info) list" where
  "one_visit = [(''2025-02-01T00:00:00.000Z'', ''wshobson/agents'', sample_info)]"

definition sample_world :: "skill list \<Rightarrow> world" where
  "sample_world found =
     \<lparr> w_tokenize = sample_tokenize, w_localeCompare = code_unit_compare, w_root = ''/repo'',
       w_now_ms = 0, w_now_iso = ''2025-02-01T00:00:00.000Z'',
       w_existingCatalog = soft_catalog,
       w_discoverSkills = (\<lambda>config. Inr \<lparr> reposScanned = length found, skills = found \<rparr>),
       w_repoCatalog = full_catalog \<rparr>"

definition strict_options :: options where
  "strict_options =
     \<lparr> o_query = None, o_limit = None, o_minScore = Some 90, o_output = None,
       o_durationMs = None \<rparr>"


section \<open>Auxiliary facts\<close>

lemma length_filter_remdups: "length (filter P (remdups xs)) = card {x \<in> set xs. P x}"
proof -
  have "distinct (filter P (remdups xs))" by simp
  then have "card (set (filter P (remdups xs))) = length (filter P (remdups xs))"
    by (rule distinct_card)
  moreover have "set (filter P (remdups xs)) = {x \<in> set xs. P x}" by auto
  ultimately show ?thesis by simp
qed

lemma jaccardSimilarity_commute: "jaccardSimilarity A B = jaccardSimilarity B A"
proof -
  have "{x \<in> set A. x \<in> set B} = {x \<in> set B. x \<in> set A}" by auto
  then have "length (filter (\<lambda>t. t \<in> set (remdups B)) (remdups A))
             = length (filter (\<lambda>t. t \<in> set (remdups A)) (remdups B))"
    by (simp add: length_filter_remdups)
  then show ?thesis
    by (simp add: jaccardSimilarity_def Let_def disj_commute add.commute)
qed

lemma jaccardSimilarity_self: "A \<noteq> [] \<Longrightarrow> jaccardSimilarity A A = 1"
proof -
  assume a: "A \<noteq> []"
  have f: "filter (\<lambda>t. t \<in> set (remdups A)) (remdups A) = remdups A"
    by (simp add: filter_id_conv)
  have "remdups A \<noteq> []" using a by simp
  then have "length (remdups A) \<noteq> 0" by simp
  then show ?thesis using a
    by (simp add: jaccardSimilarity_def Let_def f)
qed

subsection \<open>Ranges of the sub-scores\<close>

lemma scoreCompleteness_range: "0 \<le> scoreCompleteness skill \<and> scoreCompleteness skill \<le> 25"
proof
  show "0 \<le> scoreCompleteness skill"
    unfolding scoreCompleteness_def Let_def
    by (intro min.boundedI add_nonneg_nonneg) simp_all
  show "scoreCompleteness skill \<le> 25"
    unfolding scoreCompleteness_def Let_def by (rule min.cobounded2)
qed

lemma scoreQuality_range: "0 \<le> scoreQuality skill \<and> scoreQuality skill \<le> 25"
proof
  show "0 \<le> scoreQuality skill"
    unfolding scoreQuality_def Let_def
    by (intro min.boundedI add_nonneg_nonneg) simp_all
  show "scoreQuality skill \<le> 25"
    unfolding scoreQuality_def Let_def by (rule min.cobounded2)
qed

lemma recency_nonneg: "0 \<le> recency now d"
  by (simp add: recency_def Let_def split: jsdate.split)

lemma scoreRepoSignals_range:
  "0 \<le> scoreRepoSignals now skill \<and> scoreRepoSignals now skill \<le> 25"
proof
  show "0 \<le> scoreRepoSignals now skill"
    unfolding scoreRepoSignals_def Let_def
    by (intro min.boundedI add_nonneg_nonneg) (simp_all add: recency_nonneg split: option.split)
  show "scoreRepoSignals now skill \<le> 25"
    unfolding scoreRepoSignals_def Let_def by (rule min.cobounded2)
qed

subsection \<open>The loop of \<open>scoreUniqueness\<close>\<close>

lemma uniqueness_loop_collision:
  "\<exists>e \<in> set es. ex_id e = skill_id skill \<Longrightarrow>
   uniqueness_loop tok skill st es m b = Inl (Result 0 (Some (skill_id skill)) True)"
  by (induction es arbitrary: m b) (auto simp: Let_def)

lemma uniqueness_loop_Inl:
  "uniqueness_loop tok skill st es m b = Inl r \<Longrightarrow> r = Result 0 (Some (skill_id skill)) True"
  by (induction es arbitrary: m b) (auto simp: Let_def split: if_splits)

lemma foldl_max_ge: "(m::rat) \<le> foldl max m xs"
proof (induction xs arbitrary: m)
  case Nil
  show ?case by simp
next
  case (Cons x xs)
  have "m \<le> max m x" by simp
  also have "max m x \<le> foldl max (max m x) xs" by (rule Cons.IH)
  finally show ?case by simp
qed

lemma foldl_max_Max: "xs \<noteq> [] \<Longrightarrow> foldl max (m::rat) xs = max m (Max (set xs))"
proof (induction xs arbitrary: m)
  case Nil
  then show ?case by simp
next
  case (Cons x xs)
  show ?case
  proof (cases "xs = []")
    case True
    then show ?thesis by simp
  next
    case False
    then have "foldl max (max m x) xs = max (max m x) (Max (set xs))" by (rule Cons.IH)
    moreover have "Max (set (x # xs)) = max x (Max (set xs))" using False by simp
    ultimately show ?thesis by (simp add: max.assoc)
  qed
qed

text \<open>
  Without an id match the loop ends with the greatest similarity above its starting
  value, and with the id of the first entry that reaches it.
\<close>

lemma uniqueness_loop_no_collision:
  "\<forall>e \<in> set es. ex_id e \<noteq> skill_id skill \<Longrightarrow>
   uniqueness_loop tok skill (skill_tokens tok skill) es m b =
     Inr (let m' = foldl max m (map (similarity_to tok skill) es)
          in (m', if m' = m then b
                  else map_option ex_id (find (\<lambda>e. similarity_to tok skill e = m') es)))"
proof (induction es arbitrary: m b)
  case Nil
  then show ?case by simp
next
  case (Cons e es)
  let ?s = "similarity_to tok skill e"
  let ?st = "skill_tokens tok skill"
  have ne: "ex_id e \<noteq> skill_id skill" and rest: "\<forall>e \<in> set es. ex_id e \<noteq> skill_id skill"
    using Cons.prems by auto
  have sim: "jaccardSimilarity ?st (existing_tokens tok e) = ?s"
    by (simp add: similarity_to_def)
  show ?case
  proof (cases "?s > m")
    case True
    then have mx: "max m ?s = ?s" by simp
    have ge: "?s \<le> foldl max ?s (map (similarity_to tok skill) es)" by (rule foldl_max_ge)
    with True have neq: "foldl max ?s (map (similarity_to tok skill) es) \<noteq> m" by simp
    have "uniqueness_loop tok skill ?st (e # es) m b =
          uniqueness_loop tok skill ?st es ?s (Some (ex_id e))"
      using ne True by (simp add: sim Let_def)
    also have "\<dots> = Inr (let m' = foldl max ?s (map (similarity_to tok skill) es)
          in (m', if m' = ?s then Some (ex_id e)
                  else map_option ex_id (find (\<lambda>e. similarity_to tok skill e = m') es)))"
      by (rule Cons.IH [OF rest])
    finally show ?thesis using neq by (auto simp: Let_def mx)
  next
    case False
    then have mx: "max m ?s = m" by simp
    have ge: "m \<le> foldl max m (map (similarity_to tok skill) es)" by (rule foldl_max_ge)
    have "uniqueness_loop tok skill ?st (e # es) m b =
          uniqueness_loop tok skill ?st es m b"
      using ne False by (simp add: sim Let_def)
    also have "\<dots> = Inr (let m' = foldl max m (map (similarity_to tok skill) es)
          in (m', if m' = m then b
                  else map_option ex_id (find (\<lambda>e. similarity_to tok skill e = m') es)))"
      by (rule Cons.IH [OF rest])
    finally show ?thesis using False ge by (auto simp: Let_def mx)
  qed
qed

lemma scoreUniqueness_nonempty:
  assumes "existing \<noteq> []"
  shows "\<exists>s d b. scoreUniqueness tok skill existing = Result s d b \<and> s \<in> {0, 3, 10, 18, 25}"
proof (cases "uniqueness_loop tok skill (skill_tokens tok skill) existing 0 None")
  case (Inl r)
  then have "r = Result 0 (Some (skill_id skill)) True" by (rule uniqueness_loop_Inl)
  with Inl assms show ?thesis by (auto simp: scoreUniqueness_def Let_def)
next
  case (Inr p)
  then show ?thesis using assms
    by (cases p) (auto simp: scoreUniqueness_def Let_def)
qed

subsection \<open>Ranking against a catalog that is not empty\<close>

text \<open>
  Against a catalog with at least one entry the total is the sum of the four sub-scores,
  each sub-score lies between 0 and 25 and the total between 0 and 100.
\<close>

lemma rankSkill_nonempty_catalog:
  assumes "existing \<noteq> []"
  shows "\<exists>u. uniqueness (breakdown (rankSkill tok now skill existing)) = Some (Num u)
           \<and> 0 \<le> u \<and> u \<le> 25
           \<and> score (rankSkill tok now skill existing) =
               Num (completeness (breakdown (rankSkill tok now skill existing)) + u
                    + quality (breakdown (rankSkill tok now skill existing))
                    + repoSignals (breakdown (rankSkill tok now skill existing)))"
proof -
  obtain s d b where r: "scoreUniqueness tok skill existing = Result s d b"
    and s: "s \<in> {0, 3, 10, 18, 25}"
    using scoreUniqueness_nonempty [OF assms] by blast
  from s have "0 \<le> s \<and> s \<le> 25" by auto
  then show ?thesis using r by (simp add: rankSkill_def Let_def)
qed

lemma rankSkill_breakdown_ranges:
  "0 \<le> completeness (breakdown (rankSkill tok now skill existing))
   \<and> completeness (breakdown (rankSkill tok now skill existing)) \<le> 25
   \<and> 0 \<le> quality (breakdown (rankSkill tok now skill existing))
   \<and> quality (breakdown (rankSkill tok now skill existing)) \<le> 25
   \<and> 0 \<le> repoSignals (breakdown (rankSkill tok now skill existing))
   \<and> repoSignals (breakdown (rankSkill tok now skill existing)) \<le> 25"
  using scoreCompleteness_range [of skill] scoreQuality_range [of skill]
    scoreRepoSignals_range [of now skill]
  by (simp add: rankSkill_def Let_def)

lemma rankSkill_empty_catalog:
  "score (rankSkill tok now skill []) = NaN
   \<and> uniqueness (breakdown (rankSkill tok now skill [])) = None"
  by (simp add: rankSkill_def scoreUniqueness_def Let_def)

subsection \<open>The sort\<close>

lemma set_insert_sorted: "set (insert_sorted cmp x ys) = insert x (set ys)"
  by (induction ys) auto

lemma set_array_sort: "set (array_sort cmp xs) = set xs"
  by (induction xs) (auto simp: array_sort_def set_insert_sorted)

lemma length_insert_sorted: "length (insert_sorted cmp x ys) = Suc (length ys)"
  by (induction ys) auto

lemma length_array_sort: "length (array_sort cmp xs) = length xs"
  by (induction xs) (auto simp: array_sort_def length_insert_sorted)

text \<open>
  Insertion keeps neighbours in order when the comparator is never positive both ways.
\<close>

lemma insert_sorted_successively:
  assumes asym: "\<forall>a \<in> insert x (set ys). \<forall>b \<in> insert x (set ys).
                   positive (cmp a b) \<longrightarrow> \<not> positive (cmp b a)"
    and ord: "successively (\<lambda>a b. \<not> positive (cmp a b)) ys"
  shows "successively (\<lambda>a b. \<not> positive (cmp a b)) (insert_sorted cmp x ys)"
  using asym ord
proof (induction ys)
  case Nil
  then show ?case by simp
next
  case (Cons y ys)
  show ?case
  proof (cases "positive (cmp x y)")
    case False
    then show ?thesis using Cons.prems(2) by simp
  next
    case True
    have yx: "\<not> positive (cmp y x)" using True Cons.prems(1) by simp
    have tail: "successively (\<lambda>a b. \<not> positive (cmp a b)) (insert_sorted cmp x ys)"
    proof (rule Cons.IH)
      show "\<forall>a \<in> insert x (set ys). \<forall>b \<in> insert x (set ys).
              positive (cmp a b) \<longrightarrow> \<not> positive (cmp b a)"
        using Cons.prems(1) by simp
      show "successively (\<lambda>a b. \<not> positive (cmp a b)) ys"
        using Cons.prems(2) by (auto simp: successively_Cons)
    qed
    have "\<not> positive (cmp y (hd (insert_sorted cmp x ys)))"
    proof (cases ys)
      case Nil
      then show ?thesis using yx by simp
    next
      case (Cons z zs)
      then show ?thesis using yx Cons.prems(2) by simp
    qed
    then show ?thesis using True tail by (simp add: successively_Cons)
  qed
qed

lemma array_sort_successively:
  "\<forall>a \<in> set xs. \<forall>b \<in> set xs. positive (cmp a b) \<longrightarrow> \<not> positive (cmp b a) \<Longrightarrow>
   successively (\<lambda>a b. \<not> positive (cmp a b)) (array_sort cmp xs)"
proof (induction xs)
  case Nil
  then show ?case by (simp add: array_sort_def)
next
  case (Cons x xs)
  have ih: "successively (\<lambda>a b. \<not> positive (cmp a b)) (array_sort cmp xs)"
    using Cons by simp
  have "successively (\<lambda>a b. \<not> positive (cmp a b)) (insert_sorted cmp x (array_sort cmp xs))"
  proof (rule insert_sorted_successively [OF _ ih])
    show "\<forall>a \<in> insert x (set (array_sort cmp xs)). \<forall>b \<in> insert x (set (array_sort cmp xs)).
            positive (cmp a b) \<longrightarrow> \<not> positive (cmp b a)"
      using Cons.prems by (simp add: set_array_sort)
  qed
  then show ?case by (simp add: array_sort_def)
qed

lemma compare_ranked_Num:
  assumes "score a = Num sa" and "score b = Num sb"
  shows "(\<not> positive (compare_ranked lc a b)) = in_rank_order lc a b"
  using assms by (auto simp: compare_ranked_def in_rank_order_def Let_def)

text \<open>
  Against a catalog with at least one entry, and with a collation that never puts each of
  two ids after the other, every two neighbours of the ranking are in order.
\<close>

lemma rankAll_nonempty_catalog_sorted:
  assumes ne: "existing \<noteq> []"
    and lc: "\<forall>a b. lc a b > 0 \<longrightarrow> lc b a \<le> 0"
  shows "successively (in_rank_order lc) (rankAll tok lc now ds existing)"
proof -
  let ?rs = "map (\<lambda>skill. rankSkill tok now skill existing) ds"
  have num: "\<forall>r \<in> set ?rs. \<exists>n. score r = Num n"
    using rankSkill_nonempty_catalog [OF ne] by fastforce
  have asym: "\<forall>a \<in> set ?rs. \<forall>b \<in> set ?rs.
                positive (compare_ranked lc a b) \<longrightarrow> \<not> positive (compare_ranked lc b a)"
  proof (intro ballI impI)
    fix a b
    assume a: "a \<in> set ?rs" and b: "b \<in> set ?rs" and p: "positive (compare_ranked lc a b)"
    from num a obtain sa where sa: "score a = Num sa" by blast
    from num b obtain sb where sb: "score b = Num sb" by blast
    show "\<not> positive (compare_ranked lc b a)"
    proof (cases "sa = sb")
      case True
      with p sa sb have "lc (r_id a) (r_id b) > 0" by (simp add: compare_ranked_def Let_def)
      with lc have "lc (r_id b) (r_id a) \<le> 0" by blast
      with True sa sb show ?thesis by (simp add: compare_ranked_def Let_def)
    next
      case False
      with p sa sb have "sb > sa" by (simp add: compare_ranked_def Let_def)
      with sa sb show ?thesis by (simp add: compare_ranked_def Let_def)
    qed
  qed
  have "successively (\<lambda>a b. \<not> positive (compare_ranked lc a b))
          (array_sort (compare_ranked lc) ?rs)"
    by (rule array_sort_successively [OF asym])
  moreover have "\<And>a b. a \<in> set (array_sort (compare_ranked lc) ?rs) \<Longrightarrow>
                   b \<in> set (array_sort (compare_ranked lc) ?rs) \<Longrightarrow>
                   (\<not> positive (compare_ranked lc a b)) = in_rank_order lc a b"
  proof -
    fix a b
    assume "a \<in> set (array_sort (compare_ranked lc) ?rs)"
      and "b \<in> set (array_sort (compare_ranked lc) ?rs)"
    then have "a \<in> set ?rs" and "b \<in> set ?rs" by (simp_all only: set_array_sort)
    with num obtain sa sb where "score a = Num sa" and "score b = Num sb" by blast
    then show "(\<not> positive (compare_ranked lc a b)) = in_rank_order lc a b"
      by (rule compare_ranked_Num)
  qed
  ultimately have "successively (in_rank_order lc) (array_sort (compare_ranked lc) ?rs)"
    by (simp cong: successively_cong)
  then show ?thesis by (simp add: rankAll_def)
qed

subsection \<open>Visits to the repository catalog\<close>

lemma logRepoCheck_other:
  "r' \<noteq> r \<Longrightarrow> map_of (repos (logRepoCheck now c r info)) r' = map_of (repos c) r'"
  by (simp add: logRepoCheck_def Let_def update_conv')

lemma logRepoCheck_visited:
  "\<exists>e. map_of (repos (logRepoCheck now c r info)) r = Some e \<and> length (checks e) \<le> 20
      \<and> (\<forall>e0. map_of (repos c) r = Some e0 \<longrightarrow> firstSeen e = firstSeen e0)"
  by (simp add: logRepoCheck_def Let_def update_conv' split: option.split)

lemma logRepoChecks_firstSeen:
  "map_of (repos c) r = Some e0 \<Longrightarrow>
   \<exists>e. map_of (repos (logRepoChecks vs c)) r = Some e \<and> firstSeen e = firstSeen e0"
proof (induction vs arbitrary: c e0)
  case Nil
  then show ?case by simp
next
  case (Cons v vs)
  obtain now r' info where v: "v = (now, r', info)" by (cases v) auto
  have "\<exists>e1. map_of (repos (logRepoCheck now c r' info)) r = Some e1
              \<and> firstSeen e1 = firstSeen e0"
  proof (cases "r = r'")
    case True
    then show ?thesis using logRepoCheck_visited [of now c r' info] Cons.prems by auto
  next
    case False
    then show ?thesis using logRepoCheck_other [of r r' now c info] Cons.prems by simp
  qed
  then obtain e1 where e1: "map_of (repos (logRepoCheck now c r' info)) r = Some e1"
    and f: "firstSeen e1 = firstSeen e0" by blast
  from Cons.IH [OF e1] f show ?case by (simp add: v)
qed

lemma logRepoCheck_bound:
  assumes "map_of (repos (logRepoCheck now c r info)) r' = Some e"
    and "r' = r \<or> (\<forall>e0. map_of (repos c) r' = Some e0 \<longrightarrow> length (checks e0) \<le> 20)"
  shows "length (checks e) \<le> 20"
proof (cases "r' = r")
  case True
  then show ?thesis using logRepoCheck_visited [of now c r info] assms(1) by auto
next
  case False
  then show ?thesis using logRepoCheck_other [of r' r now c info] assms by auto
qed

lemma logRepoChecks_bound:
  "map_of (repos (logRepoChecks vs c)) r = Some e \<Longrightarrow>
   r \<in> visited vs \<or> (\<forall>e0. map_of (repos c) r = Some e0 \<longrightarrow> length (checks e0) \<le> 20) \<Longrightarrow>
   length (checks e) \<le> 20"
proof (induction vs arbitrary: c)
  case Nil
  then show ?case by (simp add: visited_def)
next
  case (Cons v vs)
  obtain now r' info where v: "v = (now, r', info)" by (cases v) auto
  let ?c = "logRepoCheck now c r' info"
  have e: "map_of (repos (logRepoChecks vs ?c)) r = Some e" using Cons.prems(1) by (simp add: v)
  have "r \<in> visited vs \<or> (\<forall>e0. map_of (repos ?c) r = Some e0 \<longrightarrow> length (checks e0) \<le> 20)"
  proof (cases "r \<in> visited vs")
    case True
    then show ?thesis by simp
  next
    case False
    then have "r = r' \<or> (\<forall>e0. map_of (repos c) r = Some e0 \<longrightarrow> length (checks e0) \<le> 20)"
      using Cons.prems(2) by (auto simp: visited_def v)
    then have "\<forall>e0. map_of (repos ?c) r = Some e0 \<longrightarrow> length (checks e0) \<le> 20"
      using logRepoCheck_bound [of now c r' info r] by blast
    then show ?thesis by simp
  qed
  from Cons.IH [OF e this] show ?case .
qed

lemma last20_last20: "last20 (last20 xs @ ys) = last20 (xs @ ys)"
proof (cases "length xs \<le> 20")
  case True
  then show ?thesis by (simp add: last20_def)
next
  case False
  then have "length xs - 20 + 20 = length xs" by simp
  moreover have "length xs + length ys - length xs + (length xs - 20)
                 = length xs + length ys - 20" using False by simp
  ultimately show ?thesis by (simp add: last20_def)
qed

lemma events_of_unvisited: "r \<notin> visited vs \<Longrightarrow> events_of r vs = []"
  by (auto simp: events_of_def visits_to_def visited_def filter_empty_conv)

lemma events_of_Cons:
  "events_of r ((now, r', info) # vs) =
     (if r' = r then visit_event now info # events_of r vs else events_of r vs)"
  by (simp add: events_of_def visits_to_def)

lemma visited_Cons: "visited ((now, r', info) # vs) = insert r' (visited vs)"
  by (simp add: visited_def)

text \<open>
  One visit: the entry of the repository is there afterwards, its checks are the 20
  newest of the checks it had and the event of the visit, and its \<^verbatim>\<open>firstSeen\<close> is the
  one it had, or the time of the visit if it had no entry.
\<close>

lemma logRepoCheck_entry:
  "\<exists>e. map_of (repos (logRepoCheck now c r info)) r = Some e
      \<and> checks e = last20 (prior_checks c r @ [visit_event now info])
      \<and> firstSeen e = (case map_of (repos c) r of None \<Rightarrow> now | Some e0 \<Rightarrow> firstSeen e0)"
  by (simp add: logRepoCheck_def Let_def update_conv' last20_def prior_checks_def visit_event_def
      num_or_def status_or_checked_def str_or_def split: option.split)

lemma prior_checks_logRepoCheck:
  "prior_checks (logRepoCheck now c r' info) r =
     (if r = r' then last20 (prior_checks c r @ [visit_event now info]) else prior_checks c r)"
proof (cases "r = r'")
  case True
  then show ?thesis using logRepoCheck_entry [of now c r' info] by (auto simp: prior_checks_def)
next
  case False
  then show ?thesis using logRepoCheck_other [of r r' now c info] by (simp add: prior_checks_def)
qed

lemma prior_checks_logRepoChecks:
  "prior_checks (logRepoChecks vs c) r =
     (if r \<in> visited vs then last20 (prior_checks c r @ events_of r vs) else prior_checks c r)"
proof (induction vs arbitrary: c)
  case Nil
  then show ?case by (simp add: visited_def)
next
  case (Cons v vs)
  obtain now r' info where v: "v = (now, r', info)" by (cases v) auto
  show ?case
  proof (cases "r \<in> visited vs")
    case True
    then show ?thesis
      by (simp add: v Cons.IH prior_checks_logRepoCheck visited_Cons events_of_Cons
          last20_last20)
  next
    case False
    then show ?thesis
      by (auto simp: v Cons.IH prior_checks_logRepoCheck visited_Cons events_of_Cons
          events_of_unvisited)
  qed
qed

lemma logRepoChecks_present:
  "r \<in> visited vs \<Longrightarrow> \<exists>e. map_of (repos (logRepoChecks vs c)) r = Some e"
proof (induction vs arbitrary: c)
  case Nil
  then show ?case by (simp add: visited_def)
next
  case (Cons v vs)
  obtain now r' info where v: "v = (now, r', info)" by (cases v) auto
  show ?case
  proof (cases "r = r'")
    case True
    obtain e1 where "map_of (repos (logRepoCheck now c r' info)) r = Some e1"
      using logRepoCheck_entry [of now c r' info] True by blast
    from logRepoChecks_firstSeen [OF this, of vs] show ?thesis by (auto simp: v)
  next
    case False
    then have "r \<in> visited vs" using Cons.prems by (simp add: visited_def v)
    from Cons.IH [OF this] show ?thesis by (simp add: v)
  qed
qed

lemma logRepoChecks_unvisited:
  "r \<notin> visited vs \<Longrightarrow> map_of (repos (logRepoChecks vs c)) r = map_of (repos c) r"
proof (induction vs arbitrary: c)
  case Nil
  then show ?case by simp
next
  case (Cons v vs)
  obtain now r' info where v: "v = (now, r', info)" by (cases v) auto
  from Cons.prems have ne: "r \<noteq> r'" and nv: "r \<notin> visited vs" by (auto simp: visited_def v)
  show ?case using Cons.IH [OF nv] logRepoCheck_other [OF ne] by (simp add: v)
qed

lemma logRepoChecks_created:
  "map_of (repos c) r = None \<Longrightarrow> r \<in> visited vs \<Longrightarrow>
   \<exists>e. map_of (repos (logRepoChecks vs c)) r = Some e \<and> firstSeen e = fst (hd (visits_to r vs))"
proof (induction vs arbitrary: c)
  case Nil
  then show ?case by (simp add: visited_def)
next
  case (Cons v vs)
  obtain now r' info where v: "v = (now, r', info)" by (cases v) auto
  show ?case
  proof (cases "r = r'")
    case True
    obtain e1 where e1: "map_of (repos (logRepoCheck now c r' info)) r = Some e1"
      and f: "firstSeen e1 = now"
      using logRepoCheck_entry [of now c r' info] True Cons.prems(1) by auto
    from logRepoChecks_firstSeen [OF e1, of vs] f True show ?thesis
      by (auto simp: v visits_to_def)
  next
    case False
    then have vis: "r \<in> visited vs" using Cons.prems(2) by (simp add: visited_def v)
    have none: "map_of (repos (logRepoCheck now c r' info)) r = None"
      using logRepoCheck_other [OF False] Cons.prems(1) by simp
    from Cons.IH [OF none vis] False show ?thesis by (simp add: v visits_to_def)
  qed
qed

subsection \<open>Matches survive around more text\<close>

lemma takeWhile_append_length: "length (takeWhile p s) \<le> length (takeWhile p (s @ u))"
  by (induction s) auto

lemma rmatch_append: "t \<in> set (rmatch r s) \<Longrightarrow> t @ u \<in> set (rmatch r (s @ u))"
proof (induction r arbitrary: s t)
  case Eps
  then show ?case by simp
next
  case (Cls p)
  then show ?case by (cases s) (auto split: if_splits)
next
  case (StarCls p)
  then have "t \<in> (\<lambda>k. drop k s) ` {0 ..< Suc (length (takeWhile p s))}"
    unfolding rmatch.simps set_map set_upt .
  then obtain k where k': "k < Suc (length (takeWhile p s))" and t: "t = drop k s" by auto
  from k' have k: "k \<le> length (takeWhile p s)" by simp
  have "k \<le> length s" using k length_takeWhile_le [of p s] by simp
  then have d: "t @ u = drop k (s @ u)" using t by simp
  have "k \<le> length (takeWhile p (s @ u))"
    using k takeWhile_append_length [of p s u] by simp
  then have "k \<in> {0 ..< Suc (length (takeWhile p (s @ u)))}" by simp
  with d have "t @ u \<in> (\<lambda>k. drop k (s @ u)) ` {0 ..< Suc (length (takeWhile p (s @ u)))}"
    by (rule image_eqI)
  then show ?case unfolding rmatch.simps set_map set_upt .
next
  case (Seq a b)
  then obtain m where m: "m \<in> set (rmatch a s)" and t: "t \<in> set (rmatch b m)" by auto
  from Seq.IH(1) [OF m] Seq.IH(2) [OF t] show ?case by auto
next
  case (Alt a b)
  then show ?case by auto
next
  case (Opt a)
  then show ?case by auto
qed

lemma regex_test_inside: "rmatch r s \<noteq> [] \<Longrightarrow> regex_test r (x @ s @ y)"
proof -
  assume "rmatch r s \<noteq> []"
  then obtain t where "t \<in> set (rmatch r s)" by (cases "rmatch r s") auto
  then have "t @ y \<in> set (rmatch r (s @ y))" by (rule rmatch_append)
  then have "rmatch r (drop (length x) (x @ s @ y)) \<noteq> []" by auto
  moreover have "length x \<in> set [0 ..< Suc (length (x @ s @ y))]" by simp
  ultimately show ?thesis unfolding regex_test_def list_ex_iff by blast
qed

subsection \<open>The scenario document\<close>

lemma use_when_header: "rmatch re_h2_use_when (toLowerCase ''## Use When\<newline>'') \<noteq> []"
  by code_simp

lemma instructions_header:
  "rmatch re_h2_instructions (toLowerCase ''## Instructions\<newline>'') \<noteq> []"
  by code_simp

lemma scenario_body_use_when: "regex_test re_h2_use_when (toLowerCase (scenario_body a b))"
proof -
  have e: "toLowerCase (scenario_body a b) =
           [] @ toLowerCase ''## Use When\<newline>''
              @ toLowerCase (a @ ''\<newline>## Instructions\<newline>'' @ b
                               @ ''\<newline>```js\<newline>code\<newline>```'')"
    by (simp add: scenario_body_def toLowerCase_def)
  show ?thesis unfolding e by (rule regex_test_inside [OF use_when_header])
qed

lemma scenario_body_instructions:
  "regex_test re_h2_instructions (toLowerCase (scenario_body a b))"
proof -
  have e: "toLowerCase (scenario_body a b) =
           toLowerCase (''## Use When\<newline>'' @ a @ ''\<newline>'')
             @ toLowerCase ''## Instructions\<newline>''
             @ toLowerCase (b @ ''\<newline>```js\<newline>code\<newline>```'')"
    by (simp add: scenario_body_def toLowerCase_def)
  show ?thesis unfolding e by (rule regex_test_inside [OF instructions_header])
qed

lemma scenario_length: "length (toLowerCase scenario_content) = 50"
  by code_simp

lemma scenario_do_not_use: "\<not> regex_test re_do_not_use (toLowerCase scenario_content)"
  by code_simp

lemma soft_similarities:
  "map (similarity_to sample_tokenize soft_skill) soft_catalog = [0, 2 / 3]"
  by code_simp


section \<open>The claims\<close>

text \<open>
  Claim C1. For every record that \<^verbatim>\<open>rankSkill\<close> or \<^verbatim>\<open>rankAll\<close> produces, for any
  discovered skill and any list of existing skills, the empty list included, the score is
  the sum of the four sub-scores of the breakdown, each sub-score lies in [0,25] and the
  score lies in [0,100].

  The code breaks this at the empty list. There \<^verbatim>\<open>scoreUniqueness\<close> returns the bare
  number 25 and not an object, \<^verbatim>\<open>rankSkill\<close> reads the property \<^verbatim>\<open>score\<close> off that
  number, and so the uniqueness of the breakdown is \<^verbatim>\<open>undefined\<close> and the score is NaN,
  whatever the skill. (Against a catalog that is not empty the claim holds:
  \<open>rankSkill_nonempty_catalog\<close>, \<open>rankSkill_breakdown_ranges\<close>.)
\<close>

theorem rankSkill_empty_catalog_score_is_NaN:
  "score (rankSkill tokenize now skill []) = NaN
   \<and> uniqueness (breakdown (rankSkill tokenize now skill [])) = None
   \<and> isDuplicate (rankSkill tokenize now skill []) = None
   \<and> tier (rankSkill tokenize now skill []) = Hexagon"
  by (simp add: rankSkill_def scoreUniqueness_def assignTier_def Let_def)

text \<open>
  Claim C2. Ranking the document with name \<^verbatim>\<open>Foo\<close>, a description of 30 characters, the
  body of the scenario and one tag against an empty catalog gives a completeness of at
  least 22 and a uniqueness of exactly 25.

  The body of the scenario is 50 code units long, not more than 100, and has no
  \<^verbatim>\<open>do not use\<close> section: the completeness, as \<^verbatim>\<open>scoreCompleteness\<close> computes it and as
  the ranked record holds it, is 19 and so below 22. The uniqueness of the ranked record
  is not 25 either: against the empty catalog it is \<^verbatim>\<open>undefined\<close>, by the defect of
  claim C1.
\<close>

theorem scenario_completeness_below_22_uniqueness_undefined:
  "\<not> (22 \<le> scoreCompleteness (scenario_doc ''foo''))
   \<and> completeness (breakdown (rankSkill sample_tokenize 0 (scenario_doc ''foo'') [])) = 19
   \<and> uniqueness (breakdown (rankSkill sample_tokenize 0 (scenario_doc ''foo'') [])) = None"
proof -
  have a: "scoreCompleteness (scenario_doc ''foo'') = 19" by code_simp
  then show ?thesis by (simp add: rankSkill_def scoreUniqueness_def Let_def)
qed

text \<open>
  Claim C2, amended. Ranking, against an empty catalog, a document with the name
  \<^verbatim>\<open>Foo\<close>, an id other than its name, a description of 30 characters, the tag \<^verbatim>\<open>x\<close>
  and the body of the scenario with any text in the two places left open gives a
  completeness of at least 19 (5 for the name, 5 for the description, 4 for the use-when
  section, 3 for the instructions section, 2 for the tags), of at least 22 when the body
  is longer than 100 characters, and of exactly 19 for the body as written, which is 50
  characters long.
\<close>

theorem scenario_completeness:
  assumes n: "name skill = ''Foo''"
    and i: "skill_id skill \<noteq> ''Foo''"
    and d: "length (description skill) = 30"
    and t: "tags skill = [''x'']"
    and c: "content skill = scenario_body a b"
  shows "19 \<le> completeness (breakdown (rankSkill tokenize now skill []))
         \<and> (length (content skill) > 100
              \<longrightarrow> 22 \<le> completeness (breakdown (rankSkill tokenize now skill [])))
         \<and> (a = ''...'' \<and> b = ''...''
              \<longrightarrow> completeness (breakdown (rankSkill tokenize now skill [])) = 19)"
proof -
  have r: "completeness (breakdown (rankSkill tokenize now skill [])) = scoreCompleteness skill"
    by (simp add: rankSkill_def Let_def)
  have uw: "regex_test re_h2_use_when (toLowerCase (content skill))"
    unfolding c by (rule scenario_body_use_when)
  have ins: "regex_test re_h2_instructions (toLowerCase (content skill))"
    unfolding c by (rule scenario_body_instructions)
  have len: "length (toLowerCase (content skill)) = length (content skill)"
    by (simp add: toLowerCase_def)
  have dne: "description skill \<noteq> []" using d by auto
  have i': "''Foo'' \<noteq> skill_id skill" using i by simp
  have base: "scoreCompleteness skill =
                min (19 + (if length (content skill) > 100 then 3 else 0)
                        + (if regex_test re_do_not_use (toLowerCase (content skill))
                           then 3 else 0))
                    25"
    unfolding scoreCompleteness_def Let_def len
    using uw ins dne i' by (simp add: n d t)
  have lit: "scoreCompleteness skill = 19" if "a = ''...'' \<and> b = ''...''"
  proof -
    from that c have cc: "content skill = scenario_content"
      by (simp add: scenario_content_def)
    have "length (content skill) = 50"
      using scenario_length by (simp add: cc toLowerCase_def)
    moreover have "\<not> regex_test re_do_not_use (toLowerCase (content skill))"
      using scenario_do_not_use by (simp add: cc)
    ultimately show ?thesis by (simp add: base)
  qed
  have "19 \<le> scoreCompleteness skill" by (simp add: base)
  moreover have "length (content skill) > 100 \<longrightarrow> 22 \<le> scoreCompleteness skill"
    by (simp add: base)
  ultimately show ?thesis unfolding r using lit by blast
qed

theorem scenario_completeness_witness:
  "completeness (breakdown (rankSkill sample_tokenize 0 (scenario_doc ''foo'') [])) = 19
   \<and> length (content long_doc) = 124
   \<and> 22 \<le> completeness (breakdown (rankSkill sample_tokenize 0 long_doc []))"
proof -
  have s: "name (scenario_doc ''foo'') = ''Foo''" "skill_id (scenario_doc ''foo'') \<noteq> ''Foo''"
    "length (description (scenario_doc ''foo'')) = 30" "tags (scenario_doc ''foo'') = [''x'']"
    "content (scenario_doc ''foo'') = scenario_body ''...'' ''...''"
    by (simp_all add: scenario_doc_def scenario_content_def)
  have l: "name long_doc = ''Foo''" "skill_id long_doc \<noteq> ''Foo''"
    "length (description long_doc) = 30" "tags long_doc = [''x'']"
    "content long_doc = scenario_body (replicate 40 (CHR ''x'')) (replicate 40 (CHR ''y''))"
    by (simp_all add: long_doc_def)
  have n: "length (content long_doc) = 124"
    by (simp add: long_doc_def scenario_body_def)
  from scenario_completeness [OF s, of sample_tokenize 0]
  have a: "completeness (breakdown (rankSkill sample_tokenize 0 (scenario_doc ''foo'') [])) = 19"
    by simp
  from scenario_completeness [OF l, of sample_tokenize 0] n
  have b: "22 \<le> completeness (breakdown (rankSkill sample_tokenize 0 long_doc []))" by simp
  from a b n show ?thesis by simp
qed

text \<open>
  Claim C3. When the HTTP response to a repository search has status 422, the search
  returns zero items as a success and raises no error.

  The code breaks this. \<^verbatim>\<open>rateLimitedGet\<close> answers a 422 with a body of no items but
  leaves the status 422 in its answer, and \<^verbatim>\<open>searchRepos\<close> throws on every status other
  than 200: the search of a 422 ends in the error that names the status 422.
\<close>

theorem searchRepos_422_is_thrown:
  "searchRepos parse
     (\<lambda>attempt. Response \<lparr> statusCode = 422, body = b, rateLimitRemaining = k,
                            rateLimitReset = t \<rparr>) now
   = Inl (SearchApiError 422)"
  by (simp add: searchRepos_def rateLimitedGet_def)

text \<open>
  Claim C4. For every discovered skill and every list of existing skills with an entry
  whose id is the id of the skill, \<^verbatim>\<open>scoreUniqueness\<close> returns the score 0, the duplicate
  flag set and that id as \<^verbatim>\<open>duplicateOf\<close>, whatever the similarity of the texts.
\<close>

theorem scoreUniqueness_id_collision:
  assumes "\<exists>e \<in> set existingSkills. ex_id e = skill_id skill"
  shows "scoreUniqueness tokenize skill existingSkills = Result 0 (Some (skill_id skill)) True"
proof -
  from assms have "existingSkills \<noteq> []" by auto
  then show ?thesis using uniqueness_loop_collision [OF assms]
    by (simp add: scoreUniqueness_def Let_def)
qed

theorem scoreUniqueness_id_collision_witness:
  "(\<exists>e \<in> set colliding_catalog. ex_id e = skill_id (scenario_doc ''foo''))
   \<and> scoreUniqueness sample_tokenize (scenario_doc ''foo'') colliding_catalog
       = Result 0 (Some ''foo'') True"
proof -
  have h: "\<exists>e \<in> set colliding_catalog. ex_id e = skill_id (scenario_doc ''foo'')"
    by (simp add: colliding_catalog_def scenario_doc_def)
  show ?thesis
    using h scoreUniqueness_id_collision [OF h, of sample_tokenize]
    by (simp add: scenario_doc_def)
qed

text \<open>
  Claim C5. The tier is a step function of the total score: at least 75 gives three stars,
  50 to 74 two stars, 25 to 49 one star and at most 24 the hexagon; so 75 gives three
  stars, 74 and 50 two, 49 and 25 one, 24 and 0 the hexagon.
\<close>

theorem assignTier_step_function:
  "(75 \<le> s \<longrightarrow> assignTier (Num s) = Stars3)
   \<and> (50 \<le> s \<and> s \<le> 74 \<longrightarrow> assignTier (Num s) = Stars2)
   \<and> (25 \<le> s \<and> s \<le> 49 \<longrightarrow> assignTier (Num s) = Stars1)
   \<and> (s \<le> 24 \<longrightarrow> assignTier (Num s) = Hexagon)
   \<and> assignTier (Num 75) = Stars3
   \<and> assignTier (Num 74) = Stars2
   \<and> assignTier (Num 50) = Stars2
   \<and> assignTier (Num 49) = Stars1
   \<and> assignTier (Num 25) = Stars1
   \<and> assignTier (Num 24) = Hexagon
   \<and> assignTier (Num 0) = Hexagon"
  by (simp add: assignTier_def)

theorem assignTier_step_function_witness:
  "(75::int) \<le> 80 \<and> assignTier (Num 80) = Stars3
   \<and> (50::int) \<le> 60 \<and> (60::int) \<le> 74 \<and> assignTier (Num 60) = Stars2
   \<and> (25::int) \<le> 30 \<and> (30::int) \<le> 49 \<and> assignTier (Num 30) = Stars1
   \<and> (10::int) \<le> 24 \<and> assignTier (Num 10) = Hexagon"
  using assignTier_step_function [of 80] assignTier_step_function [of 60]
    assignTier_step_function [of 30] assignTier_step_function [of 10]
  by simp

text \<open>
  Claim C6. For every list of discovered skills and every list of existing skills, every
  two neighbours of the output of \<^verbatim>\<open>rankAll\<close> are in order: the first score is at least
  the second, and where the scores are equal the first id is not after the second.

  The code breaks this at the empty list of existing skills, through the defect of
  claim C1: every score is NaN there, NaN is not at least NaN, and no two records of
  the output are in order. (Against a catalog that is not empty the neighbours are in
  order: \<open>rankAll_nonempty_catalog_sorted\<close>.)
\<close>

theorem rankAll_empty_catalog_not_sorted:
  "map score (rankAll tokenize localeCompare now [skill1, skill2] []) = [NaN, NaN]
   \<and> \<not> successively (in_rank_order localeCompare)
          (rankAll tokenize localeCompare now [skill1, skill2] [])"
proof -
  let ?rs = "rankAll tokenize localeCompare now [skill1, skill2] []"
  have all: "\<forall>r \<in> set ?rs. score r = NaN"
    using rankSkill_empty_catalog by (auto simp: rankAll_def set_array_sort)
  have "length ?rs = 2" by (simp add: rankAll_def length_array_sort)
  then obtain a b where ab: "?rs = [a, b]"
    by (auto simp: length_Suc_conv numeral_2_eq_2)
  with all have "score a = NaN" and "score b = NaN" by simp_all
  then show ?thesis by (simp add: ab in_rank_order_def)
qed

text \<open>
  Claim C7. For every catalog and every run of visits, no entry's list of checks is
  longer than 20 (the oldest events are dropped on overflow), and no visit after the one
  that made an entry changes its \<^verbatim>\<open>firstSeen\<close>.

  After a run of visits, from any catalog: the entry of every repository the run visited
  is there, and its checks are the 20 newest of the checks it had before the run followed
  by the events of the visits to it, in their order, so the newest event is the last and
  what is dropped is the oldest; such a list is at most 20 long. The entry of a
  repository the run did not visit is as it was, so all entries are within 20 after the
  run if they were before. Every entry of the starting catalog keeps its \<^verbatim>\<open>firstSeen\<close>,
  and an entry the run made has the time of the first visit to its repository.
\<close>

theorem logRepoChecks_keeps_newest_20_and_firstSeen:
  "(\<forall>r. r \<in> visited vs
         \<longrightarrow> (\<exists>e. map_of (repos (logRepoChecks vs c)) r = Some e
                   \<and> checks e = last20 (prior_checks c r @ events_of r vs)))
   \<and> (\<forall>r. r \<notin> visited vs
           \<longrightarrow> map_of (repos (logRepoChecks vs c)) r = map_of (repos c) r)
   \<and> (\<forall>r e. map_of (repos (logRepoChecks vs c)) r = Some e \<and> r \<in> visited vs
           \<longrightarrow> length (checks e) \<le> 20)
   \<and> ((\<forall>r e0. map_of (repos c) r = Some e0 \<longrightarrow> length (checks e0) \<le> 20)
        \<longrightarrow> (\<forall>r e. map_of (repos (logRepoChecks vs c)) r = Some e \<longrightarrow> length (checks e) \<le> 20))
   \<and> (\<forall>r e0. map_of (repos c) r = Some e0
           \<longrightarrow> (\<exists>e. map_of (repos (logRepoChecks vs c)) r = Some e
                     \<and> firstSeen e = firstSeen e0))
   \<and> (\<forall>r. map_of (repos c) r = None \<and> r \<in> visited vs
           \<longrightarrow> (\<exists>e. map_of (repos (logRepoChecks vs c)) r = Some e
                     \<and> firstSeen e = fst (hd (visits_to r vs))))"
proof (intro conjI allI impI)
  fix r
  assume v: "r \<in> visited vs"
  then obtain e where e: "map_of (repos (logRepoChecks vs c)) r = Some e"
    using logRepoChecks_present by blast
  then have "checks e = prior_checks (logRepoChecks vs c) r" by (simp add: prior_checks_def)
  also have "\<dots> = last20 (prior_checks c r @ events_of r vs)"
    using v by (simp add: prior_checks_logRepoChecks)
  finally show "\<exists>e. map_of (repos (logRepoChecks vs c)) r = Some e
                  \<and> checks e = last20 (prior_checks c r @ events_of r vs)"
    using e by blast
next
  fix r
  assume "r \<notin> visited vs"
  then show "map_of (repos (logRepoChecks vs c)) r = map_of (repos c) r"
    by (rule logRepoChecks_unvisited)
next
  fix r e
  assume "map_of (repos (logRepoChecks vs c)) r = Some e \<and> r \<in> visited vs"
  then show "length (checks e) \<le> 20" using logRepoChecks_bound [of vs c r e] by blast
next
  fix r e
  assume "\<forall>r e0. map_of (repos c) r = Some e0 \<longrightarrow> length (checks e0) \<le> 20"
    and "map_of (repos (logRepoChecks vs c)) r = Some e"
  then show "length (checks e) \<le> 20" using logRepoChecks_bound [of vs c r e] by blast
next
  fix r e0
  assume "map_of (repos c) r = Some e0"
  then show "\<exists>e. map_of (repos (logRepoChecks vs c)) r = Some e \<and> firstSeen e = firstSeen e0"
    by (rule logRepoChecks_firstSeen)
next
  fix r
  assume "map_of (repos c) r = None \<and> r \<in> visited vs"
  then show "\<exists>e. map_of (repos (logRepoChecks vs c)) r = Some e
               \<and> firstSeen e = fst (hd (visits_to r vs))"
    using logRepoChecks_created [of c r vs] by blast
qed

theorem logRepoChecks_keeps_newest_20_and_firstSeen_witness:
  "map_of (repos full_catalog) ''wshobson/agents'' = Some full_entry
   \<and> length (checks full_entry) = 20
   \<and> timestamp (hd (checks full_entry)) = ''2025-01-01T00:00:00.000Z''
   \<and> ''wshobson/agents'' \<in> visited one_visit
   \<and> (\<exists>e. map_of (repos (logRepoChecks one_visit full_catalog)) ''wshobson/agents'' = Some e
          \<and> firstSeen e = ''2025-01-01T00:00:00.000Z''
          \<and> checks e =
              replicate 19 \<lparr> timestamp = ''2025-01-20T00:00:00.000Z'', ev_skillCount = 2,
                              ev_status = ''has-skills'' \<rparr>
                @ [\<lparr> timestamp = ''2025-02-01T00:00:00.000Z'', ev_skillCount = 2,
                     ev_status = ''has-skills'' \<rparr>])"
proof -
  note t = logRepoChecks_keeps_newest_20_and_firstSeen [of one_visit full_catalog]
  have c: "map_of (repos full_catalog) ''wshobson/agents'' = Some full_entry"
    by (simp add: full_catalog_def)
  have l: "length (checks full_entry) = 20" by (simp add: full_entry_def)
  have h: "timestamp (hd (checks full_entry)) = ''2025-01-01T00:00:00.000Z''"
    by (simp add: full_entry_def)
  have v: "''wshobson/agents'' \<in> visited one_visit" by (simp add: visited_def one_visit_def)
  from t v obtain e
    where e: "map_of (repos (logRepoChecks one_visit full_catalog)) ''wshobson/agents'' = Some e"
      and k: "checks e = last20 (prior_checks full_catalog ''wshobson/agents''
                                  @ events_of ''wshobson/agents'' one_visit)"
    by blast
  from t c e have f: "firstSeen e = firstSeen full_entry" by fastforce
  have p: "prior_checks full_catalog ''wshobson/agents'' = checks full_entry"
    by (simp add: prior_checks_def c)
  have ev: "events_of ''wshobson/agents'' one_visit =
              [\<lparr> timestamp = ''2025-02-01T00:00:00.000Z'', ev_skillCount = 2,
                 ev_status = ''has-skills'' \<rparr>]"
    by (simp add: events_of_def visits_to_def one_visit_def visit_event_def sample_info_def)
  have "checks e =
          replicate 19 \<lparr> timestamp = ''2025-01-20T00:00:00.000Z'', ev_skillCount = 2,
                          ev_status = ''has-skills'' \<rparr>
            @ [\<lparr> timestamp = ''2025-02-01T00:00:00.000Z'', ev_skillCount = 2,
                 ev_status = ''has-skills'' \<rparr>]"
    unfolding k p ev by (simp add: full_entry_def last20_def)
  moreover have "firstSeen full_entry = ''2025-01-01T00:00:00.000Z''"
    by (simp add: full_entry_def)
  ultimately show ?thesis using c l h v e f by simp
qed

text \<open>
  Claim C8. The Jaccard similarity is symmetric; the similarity of a list of tokens that
  is not empty with itself is 1; the similarity of the empty list with any list is 0.
\<close>

theorem jaccardSimilarity_symmetric_self_empty:
  "jaccardSimilarity A B = jaccardSimilarity B A
   \<and> (A \<noteq> [] \<longrightarrow> jaccardSimilarity A A = 1)
   \<and> jaccardSimilarity [] B = 0"
  using jaccardSimilarity_commute [of A B] jaccardSimilarity_self [of A]
  by (simp add: jaccardSimilarity_def)

theorem jaccardSimilarity_symmetric_self_empty_witness:
  "[''agent'', ''skill'', ''agent''] \<noteq> []
   \<and> jaccardSimilarity [''agent'', ''skill'', ''agent''] [''agent'', ''skill'', ''agent''] = 1
   \<and> jaccardSimilarity [''agent'', ''skill'', ''agent''] [''skill'', ''tool'']
       = jaccardSimilarity [''skill'', ''tool''] [''agent'', ''skill'', ''agent'']"
  using jaccardSimilarity_symmetric_self_empty
          [of "[''agent'', ''skill'', ''agent'']" "[''agent'', ''skill'', ''agent'']"]
        jaccardSimilarity_symmetric_self_empty
          [of "[''agent'', ''skill'', ''agent'']" "[''skill'', ''tool'']"]
  by simp

text \<open>
  Claim C9. \<^verbatim>\<open>consolidate\<close> returns null when the crawl discovered no document, which is
  not the inventory with an empty list of skills that it returns when the minimum score
  removes everything; in the first case it still logs the statistics of the repository
  catalog, and it writes no file.
\<close>

theorem consolidate_null_iff_nothing_discovered:
  assumes "w_discoverSkills w (crawl_config_of opts) = Inr found"
  shows "(skills found = [] \<longrightarrow>
            snd (consolidate w opts) = Inr None
            \<and> \<not> list_ex is_write (fst (consolidate w opts))
            \<and> LogCatalogTracked (totalRepos (getCatalogStats (w_repoCatalog w)))
                 (reposWithSkills (getCatalogStats (w_repoCatalog w)))
                \<in> set (fst (consolidate w opts)))
       \<and> (skills found \<noteq> [] \<longrightarrow>
            (\<exists>inv. snd (consolidate w opts) = Inr (Some inv)
               \<and> inv_skills inv =
                   (if opt_num_or (o_minScore opts) 0 > 0
                    then filter (\<lambda>s. js_ge (score s) (opt_num_or (o_minScore opts) 0))
                           (rankAll (w_tokenize w) (w_localeCompare w) (w_now_ms w)
                              (skills found) (w_existingCatalog w))
                    else rankAll (w_tokenize w) (w_localeCompare w) (w_now_ms w)
                           (skills found) (w_existingCatalog w))
               \<and> list_ex is_write (fst (consolidate w opts))))"
proof -
  have d: "w_discoverSkills w
             \<lparr> queries = [opt_str_or (o_query opts) ''filename:SKILL.md path:skills''],
               limit = opt_num_or (o_limit opts) 20,
               durationMs = opt_num_or (o_durationMs opts) 0 \<rparr> = Inr found"
    using assms by (simp add: crawl_config_of_def)
  show ?thesis
  proof (cases "skills found = []")
    case True
    then show ?thesis by (simp add: consolidate_def Let_def d)
  next
    case False
    then show ?thesis by (simp add: consolidate_def Let_def d)
  qed
qed

theorem consolidate_null_iff_nothing_discovered_witness:
  "snd (consolidate (sample_world []) strict_options) = Inr None
   \<and> \<not> list_ex is_write (fst (consolidate (sample_world []) strict_options))
   \<and> (\<exists>inv. snd (consolidate (sample_world [soft_skill]) strict_options) = Inr (Some inv)
          \<and> inv_skills inv = [])"
proof -
  have d0: "w_discoverSkills (sample_world []) (crawl_config_of strict_options)
              = Inr \<lparr> reposScanned = 0, skills = [] \<rparr>"
    by (simp add: sample_world_def)
  have d1: "w_discoverSkills (sample_world [soft_skill]) (crawl_config_of strict_options)
              = Inr \<lparr> reposScanned = 1, skills = [soft_skill] \<rparr>"
    by (simp add: sample_world_def)
  have low: "filter (\<lambda>s. js_ge (score s) 90)
               (rankAll sample_tokenize code_unit_compare 0 [soft_skill] soft_catalog) = []"
    by code_simp
  have m: "opt_num_or (o_minScore strict_options) 0 = 90"
    by (simp add: strict_options_def opt_num_or_def num_or_def)
  have sel: "w_tokenize (sample_world [soft_skill]) = sample_tokenize"
    "w_localeCompare (sample_world [soft_skill]) = code_unit_compare"
    "w_now_ms (sample_world [soft_skill]) = 0"
    "w_existingCatalog (sample_world [soft_skill]) = soft_catalog"
    by (simp_all add: sample_world_def)
  from consolidate_null_iff_nothing_discovered [OF d0]
  have a: "snd (consolidate (sample_world []) strict_options) = Inr None
           \<and> \<not> list_ex is_write (fst (consolidate (sample_world []) strict_options))"
    by simp
  from consolidate_null_iff_nothing_discovered [OF d1]
  have b: "\<exists>inv. snd (consolidate (sample_world [soft_skill]) strict_options) = Inr (Some inv)
             \<and> inv_skills inv = []"
    using low by (auto simp: m sel)
  from a b show ?thesis by simp
qed

text \<open>
  Claim C10. For every discovered skill and every list of existing skills that is not
  empty and has no entry with the id of the skill, when the greatest Jaccard similarity
  to the entries lies in (0.5, 0.7], \<^verbatim>\<open>scoreUniqueness\<close> returns the duplicate flag unset
  and \<^verbatim>\<open>duplicateOf\<close> set to the id of the best match, the first entry that reaches the
  greatest similarity: a record carries a reference to a duplicate without being flagged
  as one.
\<close>

theorem scoreUniqueness_soft_match:
  assumes ne: "existingSkills \<noteq> []"
    and nocoll: "\<forall>e \<in> set existingSkills. ex_id e \<noteq> skill_id skill"
    and lo: "1 / 2 < Max (set (map (similarity_to tokenize skill) existingSkills))"
    and hi: "Max (set (map (similarity_to tokenize skill) existingSkills)) \<le> 7 / 10"
  shows "\<exists>best. find (\<lambda>e. similarity_to tokenize skill e
                          = Max (set (map (similarity_to tokenize skill) existingSkills)))
                   existingSkills = Some best
           \<and> scoreUniqueness tokenize skill existingSkills
               = Result 10 (Some (ex_id best)) False"
proof -
  let ?sims = "map (similarity_to tokenize skill) existingSkills"
  let ?M = "Max (set ?sims)"
  have mne: "?sims \<noteq> []" using ne by simp
  have fm: "foldl max 0 ?sims = ?M"
    using foldl_max_Max [OF mne, of 0] lo by simp
  have "?M \<in> set ?sims"
    using mne by (intro Max_in) auto
  then obtain e where "e \<in> set existingSkills" and "similarity_to tokenize skill e = ?M"
    by auto
  then have "find (\<lambda>e. similarity_to tokenize skill e = ?M) existingSkills \<noteq> None"
    by (auto simp: find_None_iff)
  then obtain best
    where best: "find (\<lambda>e. similarity_to tokenize skill e = ?M) existingSkills = Some best"
    by auto
  have m0: "?M \<noteq> 0" using lo by simp
  have "scoreUniqueness tokenize skill existingSkills = Result 10 (Some (ex_id best)) False"
    using ne lo hi m0 best
    by (simp add: scoreUniqueness_def Let_def uniqueness_loop_no_collision [OF nocoll] fm)
  with best show ?thesis by blast
qed

theorem scoreUniqueness_soft_match_witness:
  "map ex_id soft_catalog = [''delta'', ''alpha-beta-gamma'']
   \<and> skill_id soft_skill = ''alpha-beta''
   \<and> Max (set (map (similarity_to sample_tokenize soft_skill) soft_catalog)) = 2 / 3
   \<and> scoreUniqueness sample_tokenize soft_skill soft_catalog
       = Result 10 (Some ''alpha-beta-gamma'') False"
proof -
  have ne: "soft_catalog \<noteq> []" by (simp add: soft_catalog_def)
  have nocoll: "\<forall>e \<in> set soft_catalog. ex_id e \<noteq> skill_id soft_skill"
    by (simp add: soft_catalog_def soft_skill_def)
  have mx: "Max (set (map (similarity_to sample_tokenize soft_skill) soft_catalog)) = 2 / 3"
    unfolding soft_similarities by simp
  have lo: "1 / 2 < Max (set (map (similarity_to sample_tokenize soft_skill) soft_catalog))"
    unfolding mx by simp
  have hi: "Max (set (map (similarity_to sample_tokenize soft_skill) soft_catalog)) \<le> 7 / 10"
    unfolding mx by simp
  have sims: "similarity_to sample_tokenize soft_skill (soft_catalog ! 0) = 0"
    "similarity_to sample_tokenize soft_skill (soft_catalog ! 1) = 2 / 3"
    using soft_similarities by (simp_all add: soft_catalog_def)
  from scoreUniqueness_soft_match [OF ne nocoll lo hi, unfolded mx]
  obtain best
    where f: "find (\<lambda>e. similarity_to sample_tokenize soft_skill e = 2 / 3) soft_catalog
                = Some best"
      and r: "scoreUniqueness sample_tokenize soft_skill soft_catalog
                = Result 10 (Some (ex_id best)) False"
    by blast
  have "find (\<lambda>e. similarity_to sample_tokenize soft_skill e = 2 / 3) soft_catalog
          = Some (soft_catalog ! 1)"
    using sims by (simp add: soft_catalog_def)
  with f have "ex_id best = ''alpha-beta-gamma''" by (simp add: soft_catalog_def)
  moreover have "map ex_id soft_catalog = [''delta'', ''alpha-beta-gamma'']"
    by (simp add: soft_catalog_def)
  moreover have "skill_id soft_skill = ''alpha-beta''" by (simp add: soft_skill_def)
  ultimately show ?thesis using mx r by simp
qed

end
